theory Spec2Isabelle
  imports Main "HOL-Library.Word"
begin

unbundle bit_operations_syntax

section \<open>Errors\<close>

text \<open>
  Go error values as the program creates and inspects them.  \<open>ErrorString\<close> is what
  \<^verbatim>\<open>errors.New\<close> and \<^verbatim>\<open>fmt.Errorf\<close> build: a message and nothing else.
  \<open>ExitError\<close> is \<^verbatim>\<open>*exec.ExitError\<close> with the \<^verbatim>\<open>syscall.WaitStatus\<close>
  (a uint32) that \<^verbatim>\<open>Sys()\<close> returns.  \<open>PathError\<close> is an error of package os
  carrying an errno.  \<open>StatusError\<close> is a gRPC status error, which is how the storage
  layers report \<^verbatim>\<open>NotFound\<close> and the like; the files modelled here never build one.
\<close>

datatype code = OK | Canceled | Unknown | InvalidArgument | DeadlineExceeded | NotFound
  | AlreadyExists | PermissionDenied | ResourceExhausted | FailedPrecondition | Aborted
  | OutOfRange | Unimplemented | Internal | Unavailable | DataLoss | Unauthenticated

datatype error = ErrorString string
  | ExitError "32 word"
  | PathError nat
  | StatusError code string

definition ENOENT :: nat where "ENOENT = 2"
definition EEXIST :: nat where "EEXIST = 17"

text \<open>\<^verbatim>\<open>os.IsNotExist\<close>: true of an os error whose errno is ENOENT.\<close>

fun os_IsNotExist :: "error \<Rightarrow> bool" where
  "os_IsNotExist (PathError n) = (n = ENOENT)"
| "os_IsNotExist _ = False"

text \<open>The gRPC code an error carries; an error that is not a status error carries none.\<close>

fun status_code :: "error \<Rightarrow> code option" where
  "status_code (StatusError c m) = Some c"
| "status_code _ = None"

section \<open>Package path of the Go library: Clean and Join\<close>

text \<open>
  \<^verbatim>\<open>path.Clean\<close> reads the path at index \<open>r\<close> and writes into a buffer at index
  \<open>w\<close>.  The model keeps the unread suffix of the path and the written prefix
  \<open>out\<close> of the buffer, so \<open>out.w\<close> is \<open>length out\<close>; \<open>dotdot\<close> is the index in the
  buffer below which a \<^verbatim>\<open>..\<close> element must not backtrack.
\<close>

text \<open>\<^verbatim>\<open>r+k == n || path[r+k] == '/'\<close> on the suffix that starts at \<open>r+k\<close>.\<close>

fun at_end_or_slash :: "string \<Rightarrow> bool" where
  "at_end_or_slash [] = True"
| "at_end_or_slash (c # cs) = (c = CHR ''/'')"

text \<open>\<^verbatim>\<open>path[r+1] == '.' && (r+2 == n || path[r+2] == '/')\<close> on the suffix at \<open>r+1\<close>,
  which is not empty when the test is reached.\<close>

fun dot_then_end_or_slash :: "string \<Rightarrow> bool" where
  "dot_then_end_or_slash [] = False"
| "dot_then_end_or_slash (c # cs) = (c = CHR ''.'' \<and> at_end_or_slash cs)"

text \<open>\<^verbatim>\<open>for out.w > dotdot && out.index(out.w) != '/' { out.w-- }\<close>\<close>

function backtrack :: "string \<Rightarrow> nat \<Rightarrow> nat \<Rightarrow> nat" where
  "backtrack buf dotdot w =
     (if w > dotdot \<and> buf ! w \<noteq> CHR ''/'' then backtrack buf dotdot (w - 1) else w)"
  by pat_completeness auto
termination
  by (relation "measure (\<lambda>(buf, dotdot, w). w)") auto

declare backtrack.simps [simp del]

text \<open>The loop \<^verbatim>\<open>for r < n\<close> of \<^verbatim>\<open>Clean\<close>; it returns the buffer and \<open>dotdot\<close>.\<close>

function clean_loop :: "bool \<Rightarrow> string \<Rightarrow> string \<times> nat \<Rightarrow> string \<times> nat" where
  "clean_loop rooted [] (out, dotdot) = (out, dotdot)"
| "clean_loop rooted (c # rest) (out, dotdot) =
     (if c = CHR ''/'' then clean_loop rooted rest (out, dotdot)
      else if c = CHR ''.'' \<and> at_end_or_slash rest then clean_loop rooted rest (out, dotdot)
      else if c = CHR ''.'' \<and> dot_then_end_or_slash rest then
        (if length out > dotdot then
           clean_loop rooted (drop 1 rest)
             (take (backtrack out dotdot (length out - 1)) out, dotdot)
         else if \<not> rooted then
           (let out' = (if length out > 0 then out @ ''/'' else out) @ ''..''
            in clean_loop rooted (drop 1 rest) (out', length out'))
         else clean_loop rooted (drop 1 rest) (out, dotdot))
      else
        (let out' = (if rooted \<and> length out \<noteq> 1 \<or> \<not> rooted \<and> length out \<noteq> 0
                     then out @ ''/'' else out)
         in clean_loop rooted (dropWhile (\<lambda>x. x \<noteq> CHR ''/'') (c # rest))
              (out' @ takeWhile (\<lambda>x. x \<noteq> CHR ''/'') (c # rest), dotdot)))"
  by pat_completeness auto
termination
  by (relation "measure (\<lambda>(rooted, p, s). length p)")
     (auto simp: less_Suc_eq_le length_dropWhile_le intro: le_trans [OF length_dropWhile_le])

declare clean_loop.simps(2) [simp del]

definition Clean :: "string \<Rightarrow> string" where
  "Clean p =
     (if p = [] then ''.''
      else
        let rooted = (hd p = CHR ''/'');
            r = (if rooted then 1 else 0);
            init = (if rooted then (''/'', 1) else ([], 0));
            out = fst (clean_loop rooted (drop r p) init)
        in if length out = 0 then ''.'' else out)"

text \<open>\<^verbatim>\<open>strings.Join(elems, sep)\<close>\<close>

fun strings_Join :: "string list \<Rightarrow> string \<Rightarrow> string" where
  "strings_Join [] sep = []"
| "strings_Join [a] sep = a"
| "strings_Join (a # b # bs) sep = a @ sep @ strings_Join (b # bs) sep"

text \<open>
  \<^verbatim>\<open>path.Join\<close>: the elements from the first non-empty one on are joined with slashes and
  the result is cleaned; with no non-empty element the result is the empty string.
\<close>

fun Join :: "string list \<Rightarrow> string" where
  "Join [] = []"
| "Join (e # es) = (if e \<noteq> [] then Clean (strings_Join (e # es) ''/'') else Join es)"

section \<open>The build executor: safe joining of paths\<close>

definition joinPathSafe :: "string list \<Rightarrow> error + string" where
  "joinPathSafe elem =
     (let joined = Join elem
      in if joined \<noteq> Clean joined
         then Inl (ErrorString (''Attempted to access non-clean path '' @ joined))
         else Inr joined)"

definition pathTempRoot :: string where "pathTempRoot = ''/tmp''"
definition pathBuildRoot :: string where "pathBuildRoot = ''/build''"
definition pathStdout :: string where "pathStdout = ''/stdout''"
definition pathStderr :: string where "pathStderr = ''/stderr''"

subsection \<open>The shape of cleaned paths\<close>

text \<open>A path element that \<^verbatim>\<open>Clean\<close> copies: not empty, without a slash, neither \<^verbatim>\<open>.\<close> nor \<^verbatim>\<open>..\<close>.\<close>

definition is_elem :: "string \<Rightarrow> bool" where
  "is_elem c \<longleftrightarrow> c \<noteq> [] \<and> CHR ''/'' \<notin> set c \<and> c \<noteq> ''.'' \<and> c \<noteq> ''..''"

text \<open>The test \<^verbatim>\<open>rooted && out.w != 1 || !rooted && out.w != 0\<close> before an element is copied.\<close>

definition need_slash :: "bool \<Rightarrow> string \<Rightarrow> bool" where
  "need_slash rooted out \<longleftrightarrow> rooted \<and> length out \<noteq> 1 \<or> \<not> rooted \<and> length out \<noteq> 0"

text \<open>The buffers the loop can hold, with their \<open>dotdot\<close> index: the root or nothing,
  then \<^verbatim>\<open>..\<close> elements (unrooted paths only), then copied elements.\<close>

inductive cleaned :: "bool \<Rightarrow> string \<Rightarrow> nat \<Rightarrow> bool" where
  root: "cleaned True ''/'' 1"
| empty: "cleaned False [] 0"
| dotdot: "cleaned False out dd \<Longrightarrow> length out = dd \<Longrightarrow>
     out' = (if length out > 0 then out @ ''/'' else out) @ ''..'' \<Longrightarrow>
     cleaned False out' (length out')"
| elem: "cleaned r out dd \<Longrightarrow> is_elem c \<Longrightarrow>
     cleaned r ((if need_slash r out then out @ ''/'' else out) @ c) dd"

text \<open>What \<^verbatim>\<open>Clean\<close> hands to its loop for a path: the part after the leading slash of a
  rooted path, and the initial buffer and \<open>dotdot\<close>.\<close>

definition body :: "bool \<Rightarrow> string \<Rightarrow> string" where
  "body r out = (if r then drop 1 out else out)"

definition init :: "bool \<Rightarrow> string \<times> nat" where
  "init r = (if r then (''/'', 1) else ([], 0))"

text \<open>
  \<^verbatim>\<open>path.Dir\<close>: the path up to and including its last slash, cleaned
  (\<^verbatim>\<open>dir, _ := Split(path); return Clean(dir)\<close>).
\<close>

definition path_Dir :: "string \<Rightarrow> string" where
  "path_Dir p = Clean (rev (dropWhile (\<lambda>c. c \<noteq> CHR ''/'') (rev p)))"

section \<open>Messages of the remote execution API\<close>

text \<open>
  The protocol buffer messages, with the fields the program reads or writes.  A field name
  that several messages share carries the message's initials.
\<close>

record Digest =
  Hash :: string
  SizeBytes :: int

record FileNode =
  fn_Name :: string
  fn_Digest :: Digest
  fn_IsExecutable :: bool

record DirectoryNode =
  dn_Name :: string
  dn_Digest :: Digest

record SymlinkNode =
  sn_Name :: string
  sn_Target :: string

record Directory =
  Files :: "FileNode list"
  Directories :: "DirectoryNode list"
  Symlinks :: "SymlinkNode list"

text \<open>A \<^verbatim>\<open>*Directory\<close> may be nil: \<open>None\<close>.\<close>

record Tree =
  Root :: "Directory option"
  Children :: "Directory option list"

record EnvironmentVariable =
  ev_Name :: string
  ev_Value :: string

record Command =
  Arguments :: "string list"
  EnvironmentVariables :: "EnvironmentVariable list"
  OutputFiles :: "string list"
  OutputDirectories :: "string list"
  WorkingDirectory :: string

record Action =
  CommandDigest :: Digest
  InputRootDigest :: Digest
  DoNotCache :: bool

record OutputFile =
  of_Path :: string
  of_Digest :: Digest
  of_IsExecutable :: bool

record OutputDirectory =
  od_Path :: string
  od_TreeDigest :: Digest

record ActionResult =
  ExitCode :: "32 word"
  StdoutDigest :: Digest
  StderrDigest :: Digest
  ar_OutputFiles :: "OutputFile list"
  ar_OutputDirectories :: "OutputDirectory list"

record ExecuteRequest =
  InstanceName :: string
  ActionDigest :: Digest

text \<open>
  An \<^verbatim>\<open>ExecuteResponse\<close> holds a result or a status (a code and a message); Execute
  itself sets the result only, and leaves error responses to
  \<^verbatim>\<open>convertErrorToExecuteResponse\<close>.
\<close>

record ExecuteResponse =
  Result :: "ActionResult option"
  Status :: "(code \<times> string) option"

section \<open>The collaborators of the build executor\<close>

text \<open>
  \<^verbatim>\<open>os.FileMode\<close> is a uint32: permission bits below, type bits above.
\<close>

type_synonym FileMode = "32 word"

definition os_ModeDir :: FileMode where "os_ModeDir = push_bit 31 1"
definition os_ModeSymlink :: FileMode where "os_ModeSymlink = push_bit 27 1"
definition os_ModeDevice :: FileMode where "os_ModeDevice = push_bit 26 1"
definition os_ModeNamedPipe :: FileMode where "os_ModeNamedPipe = push_bit 25 1"
definition os_ModeSocket :: FileMode where "os_ModeSocket = push_bit 24 1"
definition os_ModeCharDevice :: FileMode where "os_ModeCharDevice = push_bit 21 1"
definition os_ModeIrregular :: FileMode where "os_ModeIrregular = push_bit 19 1"

definition os_ModeType :: FileMode where
  "os_ModeType = os_ModeDir OR os_ModeSymlink OR os_ModeNamedPipe OR os_ModeSocket
     OR os_ModeDevice OR os_ModeCharDevice OR os_ModeIrregular"

text \<open>The octal permissions of the source.\<close>

definition perm_0777 :: FileMode where "perm_0777 = 511"
definition perm_0555 :: FileMode where "perm_0555 = 365"
definition perm_0444 :: FileMode where "perm_0444 = 292"

text \<open>The flags of \<^verbatim>\<open>os.OpenFile\<close> (Linux values).\<close>

definition O_WRONLY :: "32 word" where "O_WRONLY = 1"
definition O_CREATE :: "32 word" where "O_CREATE = 64"
definition O_EXCL :: "32 word" where "O_EXCL = 128"
definition O_TRUNC :: "32 word" where "O_TRUNC = 512"

text \<open>What \<^verbatim>\<open>ioutil.ReadDir\<close> tells about an entry: its name and mode.\<close>

record FileInfo =
  fi_Name :: string
  fi_Mode :: FileMode

text \<open>
  The \<^verbatim>\<open>exec.Cmd\<close> that runCommand builds.  An open file is known by a number.
\<close>

record Cmd =
  cmd_Args :: "string list"
  cmd_Dir :: string
  cmd_Env :: "string list"
  cmd_Stdout :: nat
  cmd_Stderr :: nat
  cmd_Uid :: "32 word"
  cmd_Gid :: "32 word"

text \<open>
  Everything outside the executor: the content addressable storage, the operating
  system, \<^verbatim>\<open>util.DigestFromMessage\<close> and \<^verbatim>\<open>convertErrorToExecuteResponse\<close>.
  Each call that can touch the outside takes the world \<open>'w\<close> and returns its result with
  the world after the call; nothing is assumed about them.  The context argument and the
  duration metrics of the source are left out.
\<close>

record 'w env =
  GetAction :: "string \<Rightarrow> Digest \<Rightarrow> 'w \<Rightarrow> (error + Action) \<times> 'w"
  GetCommand :: "string \<Rightarrow> Digest \<Rightarrow> 'w \<Rightarrow> (error + Command) \<times> 'w"
  GetDirectory :: "string \<Rightarrow> Digest \<Rightarrow> 'w \<Rightarrow> (error + Directory) \<times> 'w"
  GetFile :: "string \<Rightarrow> Digest \<Rightarrow> string \<Rightarrow> bool \<Rightarrow> 'w \<Rightarrow> error option \<times> 'w"
  PutFile :: "string \<Rightarrow> string \<Rightarrow> 'w \<Rightarrow> (error + Digest \<times> bool) \<times> 'w"
  PutTree :: "string \<Rightarrow> Tree \<Rightarrow> 'w \<Rightarrow> (error + Digest) \<times> 'w"
  os_RemoveAll :: "string \<Rightarrow> 'w \<Rightarrow> error option \<times> 'w"
  os_Mkdir :: "string \<Rightarrow> FileMode \<Rightarrow> 'w \<Rightarrow> error option \<times> 'w"
  os_MkdirAll :: "string \<Rightarrow> FileMode \<Rightarrow> 'w \<Rightarrow> error option \<times> 'w"
  os_OpenFile :: "string \<Rightarrow> 32 word \<Rightarrow> FileMode \<Rightarrow> 'w \<Rightarrow> (error + nat) \<times> 'w"
  file_Close :: "nat \<Rightarrow> 'w \<Rightarrow> error option \<times> 'w"
  ioutil_ReadDir :: "string \<Rightarrow> 'w \<Rightarrow> (error + FileInfo list) \<times> 'w"
  os_Readlink :: "string \<Rightarrow> 'w \<Rightarrow> (error + string) \<times> 'w"
  process_Run :: "Cmd \<Rightarrow> 'w \<Rightarrow> error option \<times> 'w"
  DigestFromMessage :: "Directory option \<Rightarrow> error + Digest"
  children_order :: "(string \<rightharpoonup> Directory option) \<Rightarrow> Directory option list"
  convertErrorToExecuteResponse :: "error \<Rightarrow> ExecuteResponse"

text \<open>
  The state of a run: the world, and the commands handed to \<^verbatim>\<open>cmd.Run\<close> so far.
\<close>

record 'w state =
  procs :: "Cmd list"
  world :: 'w

text \<open>A call of a collaborator: it changes the world and nothing else.\<close>

definition call :: "('w \<Rightarrow> 'a \<times> 'w) \<Rightarrow> 'w state \<Rightarrow> 'a \<times> 'w state" where
  "call f st = (case f (world st) of (r, w) \<Rightarrow> (r, st\<lparr>world := w\<rparr>))"

text \<open>\<^verbatim>\<open>cmd.Run()\<close>: the command is recorded and the operating system runs it.\<close>

definition cmd_Run :: "'w env \<Rightarrow> Cmd \<Rightarrow> 'w state \<Rightarrow> error option \<times> 'w state" where
  "cmd_Run env cmd st = call (process_Run env cmd) (st\<lparr>procs := procs st @ [cmd]\<rparr>)"

text \<open>
  \<^verbatim>\<open>syscall.WaitStatus.ExitStatus\<close> on Linux: the exit code of a process that exited,
  and -1 for one that did not.
\<close>

definition ExitStatus :: "32 word \<Rightarrow> int" where
  "ExitStatus w = (if w AND 127 \<noteq> 0 then - 1 else uint (drop_bit 8 w AND 255))"

section \<open>The build executor\<close>

text \<open>
  The functions of the executor, in the order of the source.  A function takes the state
  and returns its Go results with the state after it.  The recursion into child
  directories follows digests, or directory entries, that the collaborators return, so it
  is bounded by a fuel: with the fuel used up a function returns \<open>None\<close>.
\<close>

text \<open>The loop over \<^verbatim>\<open>directory.Files\<close> of createInputDirectory.\<close>

fun createInputDirectory_files ::
  "'w env \<Rightarrow> string \<Rightarrow> string \<Rightarrow> FileNode list \<Rightarrow> 'w state \<Rightarrow> error option \<times> 'w state" where
  "createInputDirectory_files env instance base [] st = (None, st)"
| "createInputDirectory_files env instance base (file # files) st =
     (case joinPathSafe [base, fn_Name file] of
        Inl err \<Rightarrow> (Some err, st)
      | Inr childPath \<Rightarrow>
          (case call (GetFile env instance (fn_Digest file) childPath (fn_IsExecutable file)) st of
             (Some err, st1) \<Rightarrow> (Some err, st1)
           | (None, st1) \<Rightarrow> createInputDirectory_files env instance base files st1))"

text \<open>
  createInputDirectory, and its loop over \<^verbatim>\<open>directory.Directories\<close>, which calls it on
  every child.
\<close>

fun createInputDirectory ::
    "nat \<Rightarrow> 'w env \<Rightarrow> string \<Rightarrow> Digest \<Rightarrow> string \<Rightarrow> 'w state \<Rightarrow> (error option \<times> 'w state) option"
  and createInputDirectory_directories ::
    "nat \<Rightarrow> 'w env \<Rightarrow> string \<Rightarrow> string \<Rightarrow> DirectoryNode list \<Rightarrow> 'w state
       \<Rightarrow> (error option \<times> 'w state) option" where
  "createInputDirectory 0 env instance digest base st = None"
| "createInputDirectory (Suc fuel) env instance digest base st =
     (case call (os_Mkdir env base perm_0777) st of
        (Some err, st1) \<Rightarrow> Some (Some err, st1)
      | (None, st1) \<Rightarrow>
          (case call (GetDirectory env instance digest) st1 of
             (Inl err, st2) \<Rightarrow> Some (Some err, st2)
           | (Inr directory, st2) \<Rightarrow>
               (case createInputDirectory_files env instance base (Files directory) st2 of
                  (Some err, st3) \<Rightarrow> Some (Some err, st3)
                | (None, st3) \<Rightarrow>
                    (case createInputDirectory_directories fuel env instance base
                            (Directories directory) st3 of
                       None \<Rightarrow> None
                     | Some (Some err, st4) \<Rightarrow> Some (Some err, st4)
                     | Some (None, st4) \<Rightarrow>
                         if length (Symlinks directory) > 0
                         then Some (Some (ErrorString
                                ''Creating symlinks in the input root is not yet supported''), st4)
                         else Some (None, st4)))))"
| "createInputDirectory_directories fuel env instance base [] st = Some (None, st)"
| "createInputDirectory_directories fuel env instance base (directory # directories) st =
     (case joinPathSafe [base, dn_Name directory] of
        Inl err \<Rightarrow> Some (Some err, st)
      | Inr childPath \<Rightarrow>
          (case createInputDirectory fuel env instance (dn_Digest directory) childPath st of
             None \<Rightarrow> None
           | Some (Some err, st1) \<Rightarrow> Some (Some err, st1)
           | Some (None, st1) \<Rightarrow>
               createInputDirectory_directories fuel env instance base directories st1))"

text \<open>The loop over \<^verbatim>\<open>command.OutputFiles\<close> of prepareFilesystem.\<close>

fun prepareFilesystem_outputs ::
  "'w env \<Rightarrow> string list \<Rightarrow> 'w state \<Rightarrow> error option \<times> 'w state" where
  "prepareFilesystem_outputs env [] st = (None, st)"
| "prepareFilesystem_outputs env (outputFile # outputFiles) st =
     (case joinPathSafe [pathBuildRoot, outputFile] of
        Inl err \<Rightarrow> (Some err, st)
      | Inr outputPath \<Rightarrow>
          (case call (os_MkdirAll env (path_Dir outputPath) perm_0777) st of
             (Some err, st1) \<Rightarrow> (Some err, st1)
           | (None, st1) \<Rightarrow> prepareFilesystem_outputs env outputFiles st1))"

definition prepareFilesystem ::
  "nat \<Rightarrow> 'w env \<Rightarrow> ExecuteRequest \<Rightarrow> Action \<Rightarrow> Command \<Rightarrow> 'w state
     \<Rightarrow> (error option \<times> 'w state) option" where
  "prepareFilesystem fuel env request action command st =
     (case call (os_RemoveAll env pathBuildRoot) st of
        (_, st1) \<Rightarrow>
          (case createInputDirectory fuel env (InstanceName request) (InputRootDigest action)
                  pathBuildRoot st1 of
             None \<Rightarrow> None
           | Some (Some err, st2) \<Rightarrow> Some (Some err, st2)
           | Some (None, st2) \<Rightarrow>
               (case prepareFilesystem_outputs env (OutputFiles command) st2 of
                  (Some err, st3) \<Rightarrow> Some (Some err, st3)
                | (None, st3) \<Rightarrow>
                    (case call (os_RemoveAll env pathTempRoot) st3 of
                       (_, st4) \<Rightarrow> Some (call (os_Mkdir env pathTempRoot perm_0777) st4)))))"

text \<open>
  The loop of runCommand that appends \<^verbatim>\<open>Name=Value\<close> to \<^verbatim>\<open>cmd.Env\<close> for every declared
  variable.
\<close>

fun runCommand_env :: "string list \<Rightarrow> EnvironmentVariable list \<Rightarrow> string list" where
  "runCommand_env cmdEnv [] = cmdEnv"
| "runCommand_env cmdEnv (environmentVariable # rest) =
     runCommand_env (cmdEnv @ [ev_Name environmentVariable @ ''='' @ ev_Value environmentVariable])
       rest"

text \<open>
  runCommand.  \<^verbatim>\<open>exec.CommandContext(ctx, Arguments[0], Arguments[1:]...)\<close> makes a command
  whose argument vector is \<^verbatim>\<open>Arguments\<close>.  The deferred closes run when the function
  returns, the last deferred first.
\<close>

definition runCommand :: "'w env \<Rightarrow> Command \<Rightarrow> 'w state \<Rightarrow> error option \<times> 'w state" where
  "runCommand env command st =
     (if length (Arguments command) < 1
      then (Some (ErrorString ''Insufficent number of command arguments''), st)
      else
        (case joinPathSafe [pathBuildRoot, WorkingDirectory command] of
           Inl err \<Rightarrow> (Some err, st)
         | Inr workingDirectory \<Rightarrow>
             (case call (os_OpenFile env pathStdout (O_WRONLY OR O_CREATE OR O_TRUNC) 0) st of
                (Inl err, st1) \<Rightarrow> (Some err, st1)
              | (Inr stdout, st1) \<Rightarrow>
                  (case call (os_OpenFile env pathStderr (O_WRONLY OR O_CREATE OR O_TRUNC) 0) st1 of
                     (Inl err, st2) \<Rightarrow> (Some err, snd (call (file_Close env stdout) st2))
                   | (Inr stderr, st2) \<Rightarrow>
                       (case cmd_Run env
                               \<lparr>cmd_Args = Arguments command,
                                cmd_Dir = workingDirectory,
                                cmd_Env = runCommand_env [''HOME='' @ pathTempRoot]
                                            (EnvironmentVariables command),
                                cmd_Stdout = stdout,
                                cmd_Stderr = stderr,
                                cmd_Uid = 1,
                                cmd_Gid = 1\<rparr> st2 of
                          (r, st3) \<Rightarrow>
                            (r, snd (call (file_Close env stdout)
                                      (snd (call (file_Close env stderr) st3)))))))))"

text \<open>
  uploadDirectory, and its loop over the entries that \<^verbatim>\<open>ioutil.ReadDir\<close> returned.  The
  results are the \<^verbatim>\<open>*Directory\<close> or the error, and the map \<open>children\<close>, which the
  source updates in place.
\<close>

fun uploadDirectory ::
    "nat \<Rightarrow> 'w env \<Rightarrow> string \<Rightarrow> string \<Rightarrow> bool \<Rightarrow> (string \<rightharpoonup> Directory option) \<Rightarrow> 'w state
       \<Rightarrow> ((error + Directory option) \<times> (string \<rightharpoonup> Directory option) \<times> 'w state) option"
  and uploadDirectory_entries ::
    "nat \<Rightarrow> 'w env \<Rightarrow> string \<Rightarrow> string \<Rightarrow> FileInfo list \<Rightarrow> Directory
       \<Rightarrow> (string \<rightharpoonup> Directory option) \<Rightarrow> 'w state
       \<Rightarrow> ((error + Directory option) \<times> (string \<rightharpoonup> Directory option) \<times> 'w state) option" where
  "uploadDirectory 0 env instance basePath permitNonExistent children st = None"
| "uploadDirectory (Suc fuel) env instance basePath permitNonExistent children st =
     (case call (ioutil_ReadDir env basePath) st of
        (Inl err, st1) \<Rightarrow>
          if permitNonExistent \<and> os_IsNotExist err then Some (Inr None, children, st1)
          else Some (Inl err, children, st1)
      | (Inr files, st1) \<Rightarrow>
          uploadDirectory_entries fuel env instance basePath files
            \<lparr>Files = [], Directories = [], Symlinks = []\<rparr> children st1)"
| "uploadDirectory_entries fuel env instance basePath [] directory children st =
     Some (Inr (Some directory), children, st)"
| "uploadDirectory_entries fuel env instance basePath (file # files) directory children st =
     (let name = fi_Name file;
          fullPath = Join [basePath, name]
      in if fi_Mode file AND os_ModeType = 0 then
           (case call (PutFile env instance fullPath) st of
              (Inl err, st1) \<Rightarrow> Some (Inl err, children, st1)
            | (Inr (digest, isExecutable), st1) \<Rightarrow>
                uploadDirectory_entries fuel env instance basePath files
                  (directory\<lparr>Files := Files directory @
                     [\<lparr>fn_Name = name, fn_Digest = digest, fn_IsExecutable = isExecutable\<rparr>]\<rparr>)
                  children st1)
         else if fi_Mode file AND os_ModeType = os_ModeDir then
           (case uploadDirectory fuel env instance fullPath False children st of
              None \<Rightarrow> None
            | Some (Inl err, children1, st1) \<Rightarrow> Some (Inl err, children1, st1)
            | Some (Inr child, children1, st1) \<Rightarrow>
                (case DigestFromMessage env child of
                   Inl err \<Rightarrow> Some (Inl err, children1, st1)
                 | Inr digest \<Rightarrow>
                     uploadDirectory_entries fuel env instance basePath files
                       (directory\<lparr>Directories := Directories directory @
                          [\<lparr>dn_Name = name, dn_Digest = digest\<rparr>]\<rparr>)
                       (children1(Hash digest \<mapsto> child)) st1))
         else if fi_Mode file AND os_ModeType = os_ModeSymlink then
           (case call (os_Readlink env fullPath) st of
              (Inl err, st1) \<Rightarrow> Some (Inl err, children, st1)
            | (Inr target, st1) \<Rightarrow>
                uploadDirectory_entries fuel env instance basePath files
                  (directory\<lparr>Symlinks := Symlinks directory @
                     [\<lparr>sn_Name = name, sn_Target = target\<rparr>]\<rparr>)
                  children st1)
         else Some (Inl (ErrorString (''Path '' @ basePath @ '' has an unsupported file type'')),
                    children, st))"

text \<open>
  uploadTree.  The digest it returns is nil (\<open>None\<close>) when uploadDirectory returned a nil
  directory.  The children are put into the tree in the order in which Go ranges over the
  map, which the language leaves open: \<open>children_order\<close>.
\<close>

definition uploadTree ::
  "nat \<Rightarrow> 'w env \<Rightarrow> string \<Rightarrow> string \<Rightarrow> 'w state \<Rightarrow> ((error + Digest option) \<times> 'w state) option" where
  "uploadTree fuel env instance path st =
     (case uploadDirectory fuel env instance path True Map.empty st of
        None \<Rightarrow> None
      | Some (Inl err, children, st1) \<Rightarrow> Some (Inl err, st1)
      | Some (Inr None, children, st1) \<Rightarrow> Some (Inr None, st1)
      | Some (Inr (Some root), children, st1) \<Rightarrow>
          (case call (PutTree env instance
                        \<lparr>Root = Some root, Children = children_order env children\<rparr>) st1 of
             (Inl err, st2) \<Rightarrow> Some (Inl err, st2)
           | (Inr digest, st2) \<Rightarrow> Some (Inr (Some digest), st2)))"

text \<open>The loop of Execute over \<^verbatim>\<open>command.OutputFiles\<close>; it appends to the result.\<close>

fun Execute_outputFiles ::
  "'w env \<Rightarrow> string \<Rightarrow> string list \<Rightarrow> ActionResult \<Rightarrow> 'w state
     \<Rightarrow> (error + ActionResult) \<times> 'w state" where
  "Execute_outputFiles env instance [] result st = (Inr result, st)"
| "Execute_outputFiles env instance (outputFile # outputFiles) result st =
     (case joinPathSafe [pathBuildRoot, outputFile] of
        Inl err \<Rightarrow> (Inl err, st)
      | Inr outputPath \<Rightarrow>
          (case call (PutFile env instance outputPath) st of
             (Inl err, st1) \<Rightarrow>
               if os_IsNotExist err then Execute_outputFiles env instance outputFiles result st1
               else (Inl err, st1)
           | (Inr (digest, isExecutable), st1) \<Rightarrow>
               Execute_outputFiles env instance outputFiles
                 (result\<lparr>ar_OutputFiles := ar_OutputFiles result @
                    [\<lparr>of_Path = outputFile, of_Digest = digest,
                      of_IsExecutable = isExecutable\<rparr>]\<rparr>) st1))"

text \<open>The loop of Execute over \<^verbatim>\<open>command.OutputDirectories\<close>.\<close>

fun Execute_outputDirectories ::
  "nat \<Rightarrow> 'w env \<Rightarrow> string \<Rightarrow> string list \<Rightarrow> ActionResult \<Rightarrow> 'w state
     \<Rightarrow> ((error + ActionResult) \<times> 'w state) option" where
  "Execute_outputDirectories fuel env instance [] result st = Some (Inr result, st)"
| "Execute_outputDirectories fuel env instance (outputDirectory # outputDirectories) result st =
     (case joinPathSafe [pathBuildRoot, outputDirectory] of
        Inl err \<Rightarrow> Some (Inl err, st)
      | Inr outputPath \<Rightarrow>
          (case uploadTree fuel env instance outputPath st of
             None \<Rightarrow> None
           | Some (Inl err, st1) \<Rightarrow> Some (Inl err, st1)
           | Some (Inr None, st1) \<Rightarrow>
               Execute_outputDirectories fuel env instance outputDirectories result st1
           | Some (Inr (Some digest), st1) \<Rightarrow>
               Execute_outputDirectories fuel env instance outputDirectories
                 (result\<lparr>ar_OutputDirectories := ar_OutputDirectories result @
                    [\<lparr>od_Path = outputDirectory, od_TreeDigest = digest\<rparr>]\<rparr>) st1))"

text \<open>
  Execute from \<^verbatim>\<open>// Upload command output\<close> on, with the exit code that the part before
  it found.  \<^verbatim>\<open>int32(exitCode)\<close> keeps the low 32 bits.
\<close>

definition Execute_upload ::
  "nat \<Rightarrow> 'w env \<Rightarrow> ExecuteRequest \<Rightarrow> Action \<Rightarrow> Command \<Rightarrow> int \<Rightarrow> 'w state
     \<Rightarrow> ((ExecuteResponse \<times> bool) \<times> 'w state) option" where
  "Execute_upload fuel env request action command exitCode st =
     (case call (PutFile env (InstanceName request) pathStdout) st of
        (Inl err, st1) \<Rightarrow> Some ((convertErrorToExecuteResponse env err, False), st1)
      | (Inr (stdoutDigest, _), st1) \<Rightarrow>
          (case call (PutFile env (InstanceName request) pathStderr) st1 of
             (Inl err, st2) \<Rightarrow> Some ((convertErrorToExecuteResponse env err, False), st2)
           | (Inr (stderrDigest, _), st2) \<Rightarrow>
               (case Execute_outputFiles env (InstanceName request) (OutputFiles command)
                       \<lparr>ExitCode = word_of_int exitCode,
                        StdoutDigest = stdoutDigest,
                        StderrDigest = stderrDigest,
                        ar_OutputFiles = [],
                        ar_OutputDirectories = []\<rparr> st2 of
                  (Inl err, st3) \<Rightarrow> Some ((convertErrorToExecuteResponse env err, False), st3)
                | (Inr result, st3) \<Rightarrow>
                    (case Execute_outputDirectories fuel env (InstanceName request)
                            (OutputDirectories command) result st3 of
                       None \<Rightarrow> None
                     | Some (Inl err, st4) \<Rightarrow>
                         Some ((convertErrorToExecuteResponse env err, False), st4)
                     | Some (Inr result', st4) \<Rightarrow>
                         Some ((\<lparr>Result = Some result', Status = None\<rparr>,
                                \<not> DoNotCache action \<and> ExitCode result' = 0), st4)))))"

text \<open>Execute: the response and the flag that tells whether the result may be cached.\<close>

definition Execute ::
  "nat \<Rightarrow> 'w env \<Rightarrow> ExecuteRequest \<Rightarrow> 'w state \<Rightarrow> ((ExecuteResponse \<times> bool) \<times> 'w state) option" where
  "Execute fuel env request st =
     (case call (GetAction env (InstanceName request) (ActionDigest request)) st of
        (Inl err, st1) \<Rightarrow> Some ((convertErrorToExecuteResponse env err, False), st1)
      | (Inr action, st1) \<Rightarrow>
          (case call (GetCommand env (InstanceName request) (CommandDigest action)) st1 of
             (Inl err, st2) \<Rightarrow> Some ((convertErrorToExecuteResponse env err, False), st2)
           | (Inr command, st2) \<Rightarrow>
               (case prepareFilesystem fuel env request action command st2 of
                  None \<Rightarrow> None
                | Some (Some err, st3) \<Rightarrow>
                    Some ((convertErrorToExecuteResponse env err, False), st3)
                | Some (None, st3) \<Rightarrow>
                    (case runCommand env command st3 of
                       (None, st4) \<Rightarrow> Execute_upload fuel env request action command 0 st4
                     | (Some (ExitError waitStatus), st4) \<Rightarrow>
                         Execute_upload fuel env request action command (ExitStatus waitStatus) st4
                     | (Some err, st4) \<Rightarrow>
                         Some ((convertErrorToExecuteResponse env err, False), st4)))))"

section \<open>The action cache over a blob store\<close>

text \<open>
  A reader is what can be read from it before it ends, and the error it ends with, if any:
  \<^verbatim>\<open>ioutil.ReadAll\<close> returns both.
\<close>

type_synonym bytes = "8 word list"

type_synonym reader = "bytes \<times> error option"

text \<open>
  \<^verbatim>\<open>blobstore.BlobAccess\<close> as the action cache uses it, on a store \<open>'s\<close>:
  \<^verbatim>\<open>Get(ctx, instance, digest)\<close> returns a reader, and
  \<^verbatim>\<open>Put(ctx, instance, digest, sizeBytes, r)\<close> an error or nil.
\<close>

record 's BlobAccess =
  ba_Get :: "string \<Rightarrow> Digest \<Rightarrow> 's \<Rightarrow> reader \<times> 's"
  ba_Put :: "string \<Rightarrow> Digest \<Rightarrow> int \<Rightarrow> reader \<Rightarrow> 's \<Rightarrow> error option \<times> 's"

text \<open>\<^verbatim>\<open>proto.Marshal\<close> and \<^verbatim>\<open>proto.Unmarshal\<close> at the type ActionResult.\<close>

record proto =
  proto_Marshal :: "ActionResult \<Rightarrow> error + bytes"
  proto_Unmarshal :: "bytes \<Rightarrow> error + ActionResult"

definition GetActionResult ::
  "'s BlobAccess \<Rightarrow> proto \<Rightarrow> string \<Rightarrow> Digest \<Rightarrow> 's \<Rightarrow> (error + ActionResult) \<times> 's" where
  "GetActionResult blobAccess pb instance digest s =
     (case ba_Get blobAccess instance digest s of
        ((data, Some err), s1) \<Rightarrow> (Inl err, s1)
      | ((data, None), s1) \<Rightarrow>
          (case proto_Unmarshal pb data of
             Inl err \<Rightarrow> (Inl err, s1)
           | Inr actionResult \<Rightarrow> (Inr actionResult, s1)))"

definition PutActionResult ::
  "'s BlobAccess \<Rightarrow> proto \<Rightarrow> string \<Rightarrow> Digest \<Rightarrow> ActionResult \<Rightarrow> 's \<Rightarrow> error option \<times> 's" where
  "PutActionResult blobAccess pb instance digest result s =
     (case proto_Marshal pb result of
        Inl err \<Rightarrow> (Some err, s)
      | Inr data \<Rightarrow> ba_Put blobAccess instance digest (int (length data)) (data, None) s)"

section \<open>The input file exposer\<close>

text \<open>
  The file system that Expose writes to: the files by path, each with the permission
  bits it was created with and its content.  \<^verbatim>\<open>os.OpenFile\<close> on it, for a path that is or
  is not there: \<^verbatim>\<open>O_CREATE\<close> with \<^verbatim>\<open>O_EXCL\<close> refuses a path that exists, \<^verbatim>\<open>O_CREATE\<close> makes
  an empty file with the permission given, \<^verbatim>\<open>O_TRUNC\<close> empties a file that exists.  Other
  failures of the call (a missing parent directory, a lack of rights) are what
  \<open>faults\<close> says for the path.  The umask of the process is not modelled.
\<close>

record fsfile =
  file_mode :: FileMode
  file_content :: bytes

type_synonym filesystem = "string \<rightharpoonup> fsfile"

definition fs_OpenFile ::
  "(string \<Rightarrow> error option) \<Rightarrow> string \<Rightarrow> 32 word \<Rightarrow> FileMode \<Rightarrow> filesystem
     \<Rightarrow> (error + string) \<times> filesystem" where
  "fs_OpenFile faults name flag perm fs =
     (case faults name of
        Some err \<Rightarrow> (Inl err, fs)
      | None \<Rightarrow>
          (case fs name of
             Some f \<Rightarrow>
               if flag AND O_CREATE \<noteq> 0 \<and> flag AND O_EXCL \<noteq> 0 then (Inl (PathError EEXIST), fs)
               else if flag AND O_TRUNC \<noteq> 0 then (Inr name, fs(name \<mapsto> f\<lparr>file_content := []\<rparr>))
               else (Inr name, fs)
           | None \<Rightarrow>
               if flag AND O_CREATE \<noteq> 0
               then (Inr name, fs(name \<mapsto> \<lparr>file_mode = perm, file_content = []\<rparr>))
               else (Inl (PathError ENOENT), fs)))"

text \<open>
  \<^verbatim>\<open>io.Copy(f, r)\<close> into a file just opened for writing: what the reader yields is
  written at the start of the file, and the reader's error is returned.
\<close>

definition io_Copy :: "string \<Rightarrow> reader \<Rightarrow> filesystem \<Rightarrow> error option \<times> filesystem" where
  "io_Copy f r fs =
     (case fs f of
        None \<Rightarrow> (snd r, fs)
      | Some old \<Rightarrow>
          (snd r, fs(f \<mapsto> old\<lparr>file_content := fst r @ drop (length (fst r)) (file_content old)\<rparr>)))"

text \<open>
  Expose of the exposer that reads from a blob store; here \<^verbatim>\<open>Get(instance, digest)\<close>
  returns a reader or an error.  The state is the file system and the store.
\<close>

definition Expose ::
  "(string \<Rightarrow> error option) \<Rightarrow> (string \<Rightarrow> Digest \<Rightarrow> 's \<Rightarrow> (error + reader) \<times> 's)
     \<Rightarrow> string \<Rightarrow> Digest \<Rightarrow> string \<Rightarrow> bool \<Rightarrow> filesystem \<times> 's
     \<Rightarrow> error option \<times> filesystem \<times> 's" where
  "Expose faults Get instance digest outputPath isExecutable st =
     (let mode = (if isExecutable then perm_0555 else perm_0444)
      in case fs_OpenFile faults outputPath (O_WRONLY OR O_CREATE OR O_EXCL) mode (fst st) of
           (Inl err, fs1) \<Rightarrow> (Some err, fs1, snd st)
         | (Inr f, fs1) \<Rightarrow>
             (case Get instance digest (snd st) of
                (Inl err, s1) \<Rightarrow> (Some err, fs1, s1)
              | (Inr r, s1) \<Rightarrow>
                  (case io_Copy f r fs1 of (err, fs2) \<Rightarrow> (err, fs2, s1))))"

section \<open>A small world to run the executor in\<close>

text \<open>
  A world without state in which every collaborator answers from a table: an action
  whose command copies \<^verbatim>\<open>in.txt\<close> to \<^verbatim>\<open>out.txt\<close>, an input root with that one file, and
  after the run the outputs \<^verbatim>\<open>out.txt\<close> and \<^verbatim>\<open>outdir/a\<close>.  It serves to run the
  definitions on concrete inputs.
\<close>

definition demo_digest :: "string \<Rightarrow> Digest" where
  "demo_digest h = \<lparr>Hash = h, SizeBytes = 0\<rparr>"

definition demo_action :: Action where
  "demo_action = \<lparr>CommandDigest = demo_digest ''command'',
     InputRootDigest = demo_digest ''root'', DoNotCache = False\<rparr>"

definition demo_command :: Command where
  "demo_command = \<lparr>Arguments = [''/bin/cp'', ''in.txt'', ''out.txt''],
     EnvironmentVariables = [\<lparr>ev_Name = ''PATH'', ev_Value = ''/bin''\<rparr>],
     OutputFiles = [''out.txt'', ''missing.txt''],
     OutputDirectories = [''nodir'', ''outdir''],
     WorkingDirectory = ''''\<rparr>"

definition demo_directory :: "Digest \<Rightarrow> Directory" where
  "demo_directory d =
     (if Hash d = ''root''
      then \<lparr>Files = [\<lparr>fn_Name = ''in.txt'', fn_Digest = demo_digest ''hello'',
                        fn_IsExecutable = False\<rparr>],
            Directories = [\<lparr>dn_Name = ''sub'', dn_Digest = demo_digest ''sub''\<rparr>],
            Symlinks = []\<rparr>
      else \<lparr>Files = [], Directories = [], Symlinks = []\<rparr>)"

definition demo_env :: "unit env" where
  "demo_env =
     \<lparr>GetAction = (\<lambda>i d w. (Inr demo_action, w)),
      GetCommand = (\<lambda>i d w. (Inr demo_command, w)),
      GetDirectory = (\<lambda>i d w. (Inr (demo_directory d), w)),
      GetFile = (\<lambda>i d p x w. (None, w)),
      PutFile = (\<lambda>i p w.
         (if p \<in> set [''/stdout'', ''/stderr'', ''/build/out.txt'', ''/build/outdir/a'']
          then Inr (demo_digest p, False) else Inl (PathError ENOENT), w)),
      PutTree = (\<lambda>i t w. (Inr (demo_digest ''tree''), w)),
      os_RemoveAll = (\<lambda>p w. (None, w)),
      os_Mkdir = (\<lambda>p m w. (None, w)),
      os_MkdirAll = (\<lambda>p m w. (None, w)),
      os_OpenFile = (\<lambda>p f m w. (Inr (if p = ''/stdout'' then 3 else 4), w)),
      file_Close = (\<lambda>f w. (None, w)),
      ioutil_ReadDir = (\<lambda>p w.
         (if p = ''/build/outdir'' then Inr [\<lparr>fi_Name = ''a'', fi_Mode = 420\<rparr>]
          else Inl (PathError ENOENT), w)),
      os_Readlink = (\<lambda>p w. (Inl (PathError ENOENT), w)),
      process_Run = (\<lambda>c w. (None, w)),
      DigestFromMessage = (\<lambda>m. Inr (demo_digest ''message'')),
      children_order = (\<lambda>m. []),
      convertErrorToExecuteResponse = (\<lambda>err. \<lparr>Result = None, Status = Some (Unknown, [])\<rparr>)\<rparr>"

definition demo_request :: ExecuteRequest where
  "demo_request = \<lparr>InstanceName = ''main'', ActionDigest = demo_digest ''action''\<rparr>"

definition demo_state :: "unit state" where
  "demo_state = \<lparr>procs = [], world = ()\<rparr>"

section \<open>The rejection error of joinPathSafe\<close>

text \<open>
  The errors that the error branch of joinPathSafe builds: the message
  \<^verbatim>\<open>Attempted to access non-clean path\<close> followed by a path.
\<close>

definition is_rejection :: "error \<Rightarrow> bool" where
  "is_rejection e =
     (case e of
        ErrorString m \<Rightarrow>
          take (length ''Attempted to access non-clean path '') m =
            ''Attempted to access non-clean path ''
      | _ \<Rightarrow> False)"

text \<open>
  The collaborators that prepareFilesystem and runCommand call return no such error
  themselves, in any world.
\<close>

definition collaborators_reject_nothing :: "'w env \<Rightarrow> bool" where
  "collaborators_reject_nothing env \<longleftrightarrow>
     (\<forall>p m w e w'. os_Mkdir env p m w = (Some e, w') \<longrightarrow> \<not> is_rejection e) \<and>
     (\<forall>i d w e w'. GetDirectory env i d w = (Inl e, w') \<longrightarrow> \<not> is_rejection e) \<and>
     (\<forall>i d p x w e w'. GetFile env i d p x w = (Some e, w') \<longrightarrow> \<not> is_rejection e) \<and>
     (\<forall>p m w e w'. os_MkdirAll env p m w = (Some e, w') \<longrightarrow> \<not> is_rejection e) \<and>
     (\<forall>p f m w e w'. os_OpenFile env p f m w = (Inl e, w') \<longrightarrow> \<not> is_rejection e) \<and>
     (\<forall>c w e w'. process_Run env c w = (Some e, w') \<longrightarrow> \<not> is_rejection e)"

text \<open>
  The round-trip law of a blob store: after a Put of some bytes under a key, with their
  length as the declared size, that returned no error, a Get under the same key yields
  those bytes and no error.
\<close>

definition put_then_get :: "'s BlobAccess \<Rightarrow> bool" where
  "put_then_get blobAccess \<longleftrightarrow>
     (\<forall>instance digest data s s'.
        ba_Put blobAccess instance digest (int (length data)) (data, None) s = (None, s') \<longrightarrow>
        fst (ba_Get blobAccess instance digest s') = (data, None))"

text \<open>The law of the protocol buffer library: what Marshal encodes, Unmarshal decodes.\<close>

definition marshal_then_unmarshal :: "proto \<Rightarrow> bool" where
  "marshal_then_unmarshal pb \<longleftrightarrow>
     (\<forall>result data. proto_Marshal pb result = Inr data \<longrightarrow> proto_Unmarshal pb data = Inr result)"

text \<open>
  A blob store in memory, keyed by instance and hash, and a codec that knows one
  ActionResult and encodes it as three bytes.  They serve to run the action cache on a
  concrete input.
\<close>

definition memory_blobs :: "(string \<times> string \<rightharpoonup> bytes) BlobAccess" where
  "memory_blobs =
     \<lparr>ba_Get = (\<lambda>instance digest s.
        (case s (instance, Hash digest) of
           None \<Rightarrow> (([], Some (StatusError NotFound ''Blob not found'')), s)
         | Some data \<Rightarrow> ((data, None), s))),
      ba_Put = (\<lambda>instance digest size r s.
        (case snd r of
           Some err \<Rightarrow> (Some err, s)
         | None \<Rightarrow> (None, s((instance, Hash digest) \<mapsto> fst r))))\<rparr>"

definition demo_result :: ActionResult where
  "demo_result = \<lparr>ExitCode = 0, StdoutDigest = demo_digest ''out'',
     StderrDigest = demo_digest ''err'', ar_OutputFiles = [], ar_OutputDirectories = []\<rparr>"

definition demo_proto :: proto where
  "demo_proto =
     \<lparr>proto_Marshal = (\<lambda>result. if result = demo_result then Inr [1, 2, 3] else Inl (ErrorString ''unsupported'')),
      proto_Unmarshal = (\<lambda>data. if data = [1, 2, 3] then Inr demo_result else Inl (ErrorString ''malformed''))\<rparr>"

text \<open>The same world with another action, command and outcome of the run.\<close>

definition demo_env_with :: "Action \<Rightarrow> Command \<Rightarrow> error option \<Rightarrow> unit env" where
  "demo_env_with action command run =
     demo_env\<lparr>GetAction := (\<lambda>i d w. (Inr action, w)),
              GetCommand := (\<lambda>i d w. (Inr command, w)),
              process_Run := (\<lambda>c w. (run, w))\<rparr>"

text \<open>What the run of the demo command leaves: the command handed to the operating
  system, and the result for a given exit code.\<close>

definition demo_cmd :: Cmd where
  "demo_cmd = \<lparr>cmd_Args = [''/bin/cp'', ''in.txt'', ''out.txt''], cmd_Dir = ''/build'',
     cmd_Env = [''HOME=/tmp'', ''PATH=/bin''],
     cmd_Stdout = 3, cmd_Stderr = 4, cmd_Uid = 1, cmd_Gid = 1\<rparr>"

definition demo_outcome :: "32 word \<Rightarrow> ActionResult" where
  "demo_outcome exitCode =
     \<lparr>ExitCode = exitCode,
      StdoutDigest = demo_digest ''/stdout'', StderrDigest = demo_digest ''/stderr'',
      ar_OutputFiles = [\<lparr>of_Path = ''out.txt'', of_Digest = demo_digest ''/build/out.txt'',
                         of_IsExecutable = False\<rparr>],
      ar_OutputDirectories = [\<lparr>od_Path = ''outdir'', od_TreeDigest = demo_digest ''tree''\<rparr>]\<rparr>"

section \<open>Input trees\<close>

text \<open>
  The input tree below a digest, when the storage answers GetDirectory for a digest with
  the directory \<open>dirs digest\<close>: the tree has a symlink when the directory has one or a
  child directory's tree has one, and it fits a fuel when the chain of child directories
  below it is shorter than the fuel.
\<close>

inductive has_symlink :: "(Digest \<Rightarrow> Directory) \<Rightarrow> Digest \<Rightarrow> bool" for dirs where
  here: "Symlinks (dirs digest) \<noteq> [] \<Longrightarrow> has_symlink dirs digest"
| below: "child \<in> set (Directories (dirs digest)) \<Longrightarrow> has_symlink dirs (dn_Digest child) \<Longrightarrow>
          has_symlink dirs digest"

fun fits :: "(Digest \<Rightarrow> Directory) \<Rightarrow> nat \<Rightarrow> Digest \<Rightarrow> bool" where
  "fits dirs 0 digest = False"
| "fits dirs (Suc fuel) digest =
     (\<forall>child\<in>set (Directories (dirs digest)). fits dirs fuel (dn_Digest child))"

text \<open>An input root with a subdirectory that holds a symlink, and the demo world with it.\<close>

definition links_directory :: "Digest \<Rightarrow> Directory" where
  "links_directory d =
     (if Hash d = ''root''
      then \<lparr>Files = [], Directories = [\<lparr>dn_Name = ''sub'', dn_Digest = demo_digest ''sub''\<rparr>],
            Symlinks = []\<rparr>
      else \<lparr>Files = [], Directories = [],
            Symlinks = [\<lparr>sn_Name = ''link'', sn_Target = ''/etc''\<rparr>]\<rparr>)"

definition links_env :: "unit env" where
  "links_env = (demo_env_with demo_action demo_command None)
     \<lparr>GetDirectory := (\<lambda>i d w. (Inr (links_directory d), w))\<rparr>"

section \<open>Properties of Clean and Join\<close>

lemma cleaned_dotdot_le: "cleaned r out dd \<Longrightarrow> dd \<le> length out"
  by (induction rule: cleaned.induct) auto

lemma cleaned_rooted: "cleaned r out dd \<Longrightarrow> r \<Longrightarrow> dd = 1 \<and> out \<noteq> [] \<and> hd out = CHR ''/''"
  by (induction rule: cleaned.induct) (auto simp: need_slash_def)

lemma cleaned_unrooted: "cleaned r out dd \<Longrightarrow> \<not> r \<Longrightarrow> out = [] \<or> hd out \<noteq> CHR ''/''"
proof (induction rule: cleaned.induct)
  case (elem r out dd c)
  from elem(2) have ne: "c \<noteq> []" and ns: "CHR ''/'' \<notin> set c" by (simp_all add: is_elem_def)
  from ne have "hd c \<in> set c" by (rule hd_in_set)
  with ns have "hd c \<noteq> CHR ''/''" by auto
  with elem ne show ?case by (auto simp: hd_append need_slash_def)
qed (auto simp: hd_append)

lemma backtrack_stops:
  "j \<le> w \<Longrightarrow> dd \<le> j \<Longrightarrow> buf ! j = CHR ''/'' \<or> j = dd \<Longrightarrow>
   \<forall>i. j < i \<and> i \<le> w \<longrightarrow> buf ! i \<noteq> CHR ''/'' \<Longrightarrow> backtrack buf dd w = j"
proof (induction buf dd w rule: backtrack.induct)
  case (1 buf dotdot w)
  show ?case
  proof (cases "j = w")
    case True
    with 1(2-4) show ?thesis by (subst backtrack.simps) auto
  next
    case False
    with 1(2) have lt: "j < w" by simp
    with 1(3,5) have c: "w > dotdot \<and> buf ! w \<noteq> CHR ''/''" by auto
    have "backtrack buf dotdot (w - 1) = j"
    proof (rule 1(1) [OF c])
      show "j \<le> w - 1" using lt by simp
      show "dotdot \<le> j" by (rule 1(3))
      show "buf ! j = CHR ''/'' \<or> j = dotdot" by (rule 1(4))
      show "\<forall>i. j < i \<and> i \<le> w - 1 \<longrightarrow> buf ! i \<noteq> CHR ''/''" using 1(5) by auto
    qed
    with c show ?thesis by (subst backtrack.simps) simp
  qed
qed

lemma cleaned_backtrack:
  assumes "cleaned r out dd" and "length out > dd"
  shows "cleaned r (take (backtrack out dd (length out - 1)) out) dd"
  using assms
proof (cases rule: cleaned.cases)
  case (elem out0 c)
  have dd0: "dd \<le> length out0" using elem(2) by (rule cleaned_dotdot_le)
  have cne: "c \<noteq> []" and cns: "CHR ''/'' \<notin> set c" using elem(3) by (auto simp: is_elem_def)
  show ?thesis
  proof (cases "need_slash r out0")
    case True
    have out: "out = out0 @ ''/'' @ c" using elem(1) True by simp
    have "backtrack out dd (length out - 1) = length out0"
    proof (rule backtrack_stops)
      show "length out0 \<le> length out - 1" using out by simp
      show "dd \<le> length out0" by (rule dd0)
      show "out ! length out0 = CHR ''/'' \<or> length out0 = dd" using out by (simp add: nth_append)
      show "\<forall>i. length out0 < i \<and> i \<le> length out - 1 \<longrightarrow> out ! i \<noteq> CHR ''/''"
      proof (intro allI impI)
        fix i assume i: "length out0 < i \<and> i \<le> length out - 1"
        then have "out ! i = c ! (i - length out0 - 1)" using out by (auto simp: nth_append)
        moreover have "i - length out0 - 1 < length c" using i out by auto
        ultimately have "out ! i \<in> set c" by simp
        with cns show "out ! i \<noteq> CHR ''/''" by auto
      qed
    qed
    then show ?thesis using out elem(2) by simp
  next
    case False
    have out: "out = out0 @ c" using elem(1) False by simp
    have ddeq: "dd = length out0"
    proof (cases r)
      case True
      with False have "length out0 = 1" by (simp add: need_slash_def)
      moreover have "dd = 1" using cleaned_rooted [OF elem(2)] True by simp
      ultimately show ?thesis by simp
    next
      case False
      with \<open>\<not> need_slash r out0\<close> have "length out0 = 0" by (simp add: need_slash_def)
      with dd0 show ?thesis by simp
    qed
    have "backtrack out dd (length out - 1) = length out0"
    proof (rule backtrack_stops)
      show "length out0 \<le> length out - 1" using out cne by (cases c) auto
      show "dd \<le> length out0" by (rule dd0)
      show "out ! length out0 = CHR ''/'' \<or> length out0 = dd" using ddeq by simp
      show "\<forall>i. length out0 < i \<and> i \<le> length out - 1 \<longrightarrow> out ! i \<noteq> CHR ''/''"
      proof (intro allI impI)
        fix i assume i: "length out0 < i \<and> i \<le> length out - 1"
        then have "out ! i = c ! (i - length out0)" using out by (auto simp: nth_append)
        moreover have "i - length out0 < length c" using i out cne by (cases c) auto
        ultimately have "out ! i \<in> set c" by simp
        with cns show "out ! i \<noteq> CHR ''/''" by auto
      qed
    qed
    then show ?thesis using out elem(2) by simp
  qed
qed (use assms in auto)

lemma takeWhile_slash_Nil: "takeWhile (\<lambda>x. x \<noteq> CHR ''/'') s = [] \<longleftrightarrow> at_end_or_slash s"
  by (cases s) auto

lemma is_elem_takeWhile:
  assumes "c \<noteq> CHR ''/''"
    and "\<not> (c = CHR ''.'' \<and> at_end_or_slash rest)"
    and "\<not> (c = CHR ''.'' \<and> dot_then_end_or_slash rest)"
  shows "is_elem (takeWhile (\<lambda>x. x \<noteq> CHR ''/'') (c # rest))"
proof -
  let ?t = "takeWhile (\<lambda>x. x \<noteq> CHR ''/'') (c # rest)"
  have t: "?t = c # takeWhile (\<lambda>x. x \<noteq> CHR ''/'') rest" using assms(1) by simp
  have ns: "CHR ''/'' \<notin> set ?t" using set_takeWhileD [of "CHR ''/''" "\<lambda>x. x \<noteq> CHR ''/''" "c # rest"] by blast
  have nd: "?t \<noteq> ''.''" using assms(2) t by (auto simp: takeWhile_slash_Nil)
  have ndd: "?t \<noteq> ''..''"
  proof
    assume "?t = ''..''"
    with t have c: "c = CHR ''.''" and r: "takeWhile (\<lambda>x. x \<noteq> CHR ''/'') rest = ''.''" by auto
    from r obtain r2 where rest: "rest = CHR ''.'' # r2"
      by (cases rest) (auto split: if_splits)
    with r have "takeWhile (\<lambda>x. x \<noteq> CHR ''/'') r2 = []" by simp
    then have "at_end_or_slash r2" by (simp add: takeWhile_slash_Nil)
    with c rest assms(3) show False by simp
  qed
  show ?thesis unfolding is_elem_def using t ns nd ndd by simp
qed

lemma clean_loop_cleaned:
  "cleaned r out dd \<Longrightarrow> clean_loop r p (out, dd) = (out', dd') \<Longrightarrow> cleaned r out' dd'"
proof (induction r p "(out, dd)" arbitrary: out dd rule: clean_loop.induct)
  case (1 rooted out dotdot)
  then show ?case by simp
next
  case (2 rooted c rest out dotdot)
  show ?case
  proof (cases "c = CHR ''/''")
    case True
    with 2(1) [OF True "2.prems"(1)] "2.prems"(2) show ?thesis
      by (simp add: clean_loop.simps(2))
  next
    case ns: False
    show ?thesis
    proof (cases "c = CHR ''.'' \<and> at_end_or_slash rest")
      case True
      with 2(2) [OF ns True "2.prems"(1)] "2.prems"(2) ns show ?thesis
        by (simp add: clean_loop.simps(2))
    next
      case nd: False
      show ?thesis
      proof (cases "c = CHR ''.'' \<and> dot_then_end_or_slash rest")
        case dd: True
        show ?thesis
        proof (cases "length out > dotdot")
          case True
          have "cleaned rooted (take (backtrack out dotdot (length out - 1)) out) dotdot"
            using "2.prems"(1) True by (rule cleaned_backtrack)
          from 2(3) [OF ns nd dd True this] "2.prems"(2) ns nd dd True show ?thesis
            by (simp add: clean_loop.simps(2))
        next
          case le: False
          show ?thesis
          proof (cases rooted)
            case True
            from 2(5) [OF ns nd dd le _ "2.prems"(1)] True "2.prems"(2) ns nd dd le show ?thesis
              by (simp add: clean_loop.simps(2))
          next
            case False
            define o2 where "o2 = (if length out > 0 then out @ ''/'' else out) @ ''..''"
            have eq: "length out = dotdot" using le cleaned_dotdot_le [OF "2.prems"(1)] by simp
            have "cleaned False o2 (length o2)"
              using "2.prems"(1) False eq o2_def cleaned.dotdot [of out dotdot o2] by simp
            then have c2: "cleaned rooted o2 (length o2)" using False by simp
            from 2(4) [OF ns nd dd le False o2_def c2] "2.prems"(2) ns nd dd le False
            show ?thesis by (simp add: clean_loop.simps(2) o2_def Let_def)
          qed
        qed
      next
        case el: False
        define o2 where "o2 = (if rooted \<and> length out \<noteq> 1 \<or> \<not> rooted \<and> length out \<noteq> 0
                     then out @ ''/'' else out)"
        let ?t = "takeWhile (\<lambda>x. x \<noteq> CHR ''/'') (c # rest)"
        have e: "is_elem ?t" using ns nd el by (rule is_elem_takeWhile)
        have "cleaned rooted ((if need_slash rooted out then out @ ''/'' else out) @ ?t) dotdot"
          using "2.prems"(1) e by (rule cleaned.elem)
        then have c2: "cleaned rooted (o2 @ ?t) dotdot" by (simp add: o2_def need_slash_def)
        from 2(6) [OF ns nd el o2_def c2] "2.prems"(2) ns nd el
        show ?thesis by (simp add: clean_loop.simps(2) o2_def Let_def)
      qed
    qed
  qed
qed

lemma aeos_append: "at_end_or_slash q \<Longrightarrow> at_end_or_slash (xs @ q) = at_end_or_slash xs"
  by (cases xs) auto

lemma dteos_append: "at_end_or_slash q \<Longrightarrow> dot_then_end_or_slash (xs @ q) = dot_then_end_or_slash xs"
  by (cases xs; cases q) (auto simp: aeos_append)

lemma takeWhile_append_slash:
  "at_end_or_slash q \<Longrightarrow> takeWhile (\<lambda>x. x \<noteq> CHR ''/'') (xs @ q) = takeWhile (\<lambda>x. x \<noteq> CHR ''/'') xs"
  by (induction xs) (auto simp: takeWhile_slash_Nil)

lemma dropWhile_append_slash:
  "at_end_or_slash q \<Longrightarrow> dropWhile (\<lambda>x. x \<noteq> CHR ''/'') (xs @ q) = dropWhile (\<lambda>x. x \<noteq> CHR ''/'') xs @ q"
  by (induction xs) (auto, cases q, auto)

lemma clean_loop_slash: "clean_loop r (CHR ''/'' # rest) (out, dd) = clean_loop r rest (out, dd)"
  by (subst clean_loop.simps(2)) simp

lemma clean_loop_dot:
  assumes "c = CHR ''.'' \<and> at_end_or_slash rest"
  shows "clean_loop r (c # rest) (out, dd) = clean_loop r rest (out, dd)"
  by (subst clean_loop.simps(2)) (simp add: assms)

lemma clean_loop_dotdot:
  assumes "\<not> (c = CHR ''.'' \<and> at_end_or_slash rest)" and "c = CHR ''.'' \<and> dot_then_end_or_slash rest"
  shows "clean_loop r (c # rest) (out, dd) =
     (if length out > dd then
        clean_loop r (drop 1 rest) (take (backtrack out dd (length out - 1)) out, dd)
      else if \<not> r then
        clean_loop r (drop 1 rest) ((if length out > 0 then out @ ''/'' else out) @ ''..'',
          length ((if length out > 0 then out @ ''/'' else out) @ ''..''))
      else clean_loop r (drop 1 rest) (out, dd))"
proof -
  have c: "c = CHR ''.''" and d: "dot_then_end_or_slash rest" and a: "\<not> at_end_or_slash rest"
    using assms by auto
  show ?thesis
    by (subst clean_loop.simps(2)) (simp add: c d a Let_def)
qed

lemma clean_loop_default:
  assumes "c \<noteq> CHR ''/''" and "\<not> (c = CHR ''.'' \<and> at_end_or_slash rest)"
    and "\<not> (c = CHR ''.'' \<and> dot_then_end_or_slash rest)"
  shows "clean_loop r (c # rest) (out, dd) =
     clean_loop r (dropWhile (\<lambda>x. x \<noteq> CHR ''/'') (c # rest))
       ((if need_slash r out then out @ ''/'' else out) @ takeWhile (\<lambda>x. x \<noteq> CHR ''/'') (c # rest), dd)"
proof -
  have a: "(c = CHR ''.'' \<and> at_end_or_slash rest) = False"
    and b: "(c = CHR ''.'' \<and> dot_then_end_or_slash rest) = False"
    and c: "(c = CHR ''/'') = False" using assms by auto
  show ?thesis
    by (subst clean_loop.simps(2)) (simp only: a b c if_False Let_def need_slash_def)
qed

lemma clean_loop_append:
  "at_end_or_slash q \<Longrightarrow> clean_loop r (p @ q) s = clean_loop r q (clean_loop r p s)"
proof (induction r p s rule: clean_loop.induct)
  case (1 rooted out dotdot)
  then show ?case by simp
next
  case (2 rooted c rest out dotdot)
  note q = "2.prems"
  have tw: "takeWhile (\<lambda>x. x \<noteq> CHR ''/'') (c # rest @ q) = takeWhile (\<lambda>x. x \<noteq> CHR ''/'') (c # rest)"
    using takeWhile_append_slash [OF q, of "c # rest"] by simp
  have dw: "dropWhile (\<lambda>x. x \<noteq> CHR ''/'') (c # rest @ q) = dropWhile (\<lambda>x. x \<noteq> CHR ''/'') (c # rest) @ q"
    using dropWhile_append_slash [OF q, of "c # rest"] by simp
  have app: "(c # rest) @ q = c # (rest @ q)" by simp
  show ?case
  proof (cases "c = CHR ''/''")
    case True
    have "clean_loop rooted ((c # rest) @ q) (out, dotdot) = clean_loop rooted (rest @ q) (out, dotdot)"
      by (simp add: True clean_loop_slash)
    also have "\<dots> = clean_loop rooted q (clean_loop rooted rest (out, dotdot))"
      by (rule 2(1) [OF True q])
    also have "clean_loop rooted rest (out, dotdot) = clean_loop rooted (c # rest) (out, dotdot)"
      by (simp add: True clean_loop_slash)
    finally show ?thesis .
  next
    case ns: False
    show ?thesis
    proof (cases "c = CHR ''.'' \<and> at_end_or_slash rest")
      case True
      then have T2: "c = CHR ''.'' \<and> at_end_or_slash (rest @ q)" by (simp add: aeos_append [OF q])
      have "clean_loop rooted ((c # rest) @ q) (out, dotdot) = clean_loop rooted (rest @ q) (out, dotdot)"
        unfolding app by (rule clean_loop_dot [OF T2])
      also have "\<dots> = clean_loop rooted q (clean_loop rooted rest (out, dotdot))"
        by (rule 2(2) [OF ns True q])
      also have "clean_loop rooted rest (out, dotdot) = clean_loop rooted (c # rest) (out, dotdot)"
        by (rule clean_loop_dot [OF True, symmetric])
      finally show ?thesis .
    next
      case nd: False
      then have nd2: "\<not> (c = CHR ''.'' \<and> at_end_or_slash (rest @ q))" by (simp add: aeos_append [OF q])
      show ?thesis
      proof (cases "c = CHR ''.'' \<and> dot_then_end_or_slash rest")
        case dd: True
        then have dd2: "c = CHR ''.'' \<and> dot_then_end_or_slash (rest @ q)" by (simp add: dteos_append [OF q])
        from dd have "rest \<noteq> []" by auto
        then have dr: "drop 1 (rest @ q) = drop 1 rest @ q" by (cases rest) auto
        note L = clean_loop_dotdot [OF nd2 dd2, of rooted out dotdot, unfolded dr]
        note R = clean_loop_dotdot [OF nd dd, of rooted out dotdot]
        show ?thesis
        proof (cases "length out > dotdot")
          case True
          from 2(3) [OF ns nd dd True q] L R True show ?thesis unfolding app by simp
        next
          case le: False
          show ?thesis
          proof (cases rooted)
            case True
            from 2(5) [OF ns nd dd le _ q] True L R le show ?thesis unfolding app by simp
          next
            case False
            from 2(4) [OF ns nd dd le False refl q] L R le False
            show ?thesis unfolding app by simp
          qed
        qed
      next
        case el: False
        then have el2: "\<not> (c = CHR ''.'' \<and> dot_then_end_or_slash (rest @ q))" by (simp add: dteos_append [OF q])
        note L = clean_loop_default [OF ns nd2 el2, of rooted out dotdot, unfolded tw dw]
        note R = clean_loop_default [OF ns nd el, of rooted out dotdot]
        from 2(6) [OF ns nd el refl q] L R
        show ?thesis unfolding app by (simp add: need_slash_def del: takeWhile.simps dropWhile.simps)
      qed
    qed
  qed
qed

lemma clean_loop_elem:
  assumes "is_elem c"
  shows "clean_loop r c (out, dd) = ((if need_slash r out then out @ ''/'' else out) @ c, dd)"
proof -
  from assms obtain x xs where c: "c = x # xs" by (cases c) (auto simp: is_elem_def)
  from assms have ns: "CHR ''/'' \<notin> set c" by (simp add: is_elem_def)
  then have tw: "takeWhile (\<lambda>x. x \<noteq> CHR ''/'') c = c" by (auto simp: takeWhile_eq_all_conv)
  from ns have dw: "dropWhile (\<lambda>x. x \<noteq> CHR ''/'') c = []" by auto
  from ns c have x: "x \<noteq> CHR ''/''" and xs: "CHR ''/'' \<notin> set xs" by auto
  have a: "at_end_or_slash xs \<longleftrightarrow> xs = []" using xs by (cases xs) auto
  have n1: "\<not> (x = CHR ''.'' \<and> at_end_or_slash xs)" using assms c a by (auto simp: is_elem_def)
  have n2: "\<not> (x = CHR ''.'' \<and> dot_then_end_or_slash xs)"
  proof
    assume h: "x = CHR ''.'' \<and> dot_then_end_or_slash xs"
    then obtain ys where ys: "xs = CHR ''.'' # ys" "at_end_or_slash ys" by (cases xs) auto
    with xs have "ys = []" by (cases ys) auto
    with h ys c assms show False by (simp add: is_elem_def)
  qed
  have "clean_loop r (x # xs) (out, dd) =
     clean_loop r (dropWhile (\<lambda>x. x \<noteq> CHR ''/'') c)
       ((if need_slash r out then out @ ''/'' else out) @ takeWhile (\<lambda>x. x \<noteq> CHR ''/'') c, dd)"
    unfolding c by (rule clean_loop_default [OF x n1 n2])
  then show ?thesis unfolding tw dw unfolding c by simp
qed

lemma clean_loop_dotdot_unrooted:
  "clean_loop False ''..'' (out, length out) =
     ((if length out > 0 then out @ ''/'' else out) @ ''..'',
       length ((if length out > 0 then out @ ''/'' else out) @ ''..''))"
proof -
  have a: "\<not> (CHR ''.'' = CHR ''.'' \<and> at_end_or_slash ''.'')" by simp
  have b: "CHR ''.'' = CHR ''.'' \<and> dot_then_end_or_slash ''.''" by simp
  show ?thesis using clean_loop_dotdot [OF a b, of False out "length out"] by simp
qed

lemma cleaned_fixpoint:
  "cleaned r out dd \<Longrightarrow> clean_loop r (body r out) (init r) = (out, dd)"
proof (induction rule: cleaned.induct)
  case root
  show ?case by (simp add: body_def init_def)
next
  case empty
  show ?case by (simp add: body_def init_def)
next
  case (dotdot out dd out')
  show ?case
  proof (cases "out = []")
    case True
    with dotdot(2,3) clean_loop_dotdot_unrooted [of "[]"] show ?thesis
      by (simp add: body_def init_def)
  next
    case False
    have q: "at_end_or_slash ''/..''" by simp
    have o: "out' = out @ ''/..''" using False dotdot(3) by simp
    have "clean_loop False out' (init False) = clean_loop False ''/..'' (clean_loop False out (init False))"
      unfolding o by (rule clean_loop_append [OF q])
    also have "\<dots> = clean_loop False ''/..'' (out, length out)"
      using dotdot.IH dotdot(2) by (simp add: body_def)
    also have "\<dots> = clean_loop False ''..'' (out, length out)" by (rule clean_loop_slash)
    also have "\<dots> = (out', length out')"
      using clean_loop_dotdot_unrooted [of out] False o by simp
    finally show ?thesis by (simp add: body_def)
  qed
next
  case (elem r out dd c)
  let ?o = "(if need_slash r out then out @ ''/'' else out) @ c"
  have step: "clean_loop r c (out, dd) = (?o, dd)" by (rule clean_loop_elem [OF elem(2)])
  show ?case
  proof (cases "need_slash r out")
    case True
    have b: "body r ?o = body r out @ ''/'' @ c"
      using True cleaned_rooted [OF elem(1)] by (cases out) (auto simp: body_def)
    have q: "at_end_or_slash (''/'' @ c)" by simp
    have "clean_loop r (body r ?o) (init r) = clean_loop r (''/'' @ c) (clean_loop r (body r out) (init r))"
      unfolding b by (rule clean_loop_append [OF q])
    also have "\<dots> = clean_loop r (''/'' @ c) (out, dd)" using elem.IH by simp
    also have "\<dots> = clean_loop r c (out, dd)" using clean_loop_slash [of r c out dd] by simp
    finally show ?thesis using step by simp
  next
    case False
    have bo: "body r out = []"
    proof (cases r)
      case True
      with False have "length out = 1" by (simp add: need_slash_def)
      with True show ?thesis by (simp add: body_def)
    next
      case r: False
      with False have "out = []" by (simp add: need_slash_def)
      with r show ?thesis by (simp add: body_def)
    qed
    with elem.IH have i: "init r = (out, dd)" by (cases "init r") simp
    have b: "body r ?o = c"
    proof (cases r)
      case True
      with False have "length out = 1" by (simp add: need_slash_def)
      then obtain y where "out = [y]" by (cases out) auto
      with True False show ?thesis by (simp add: body_def)
    next
      case r: False
      with False have "out = []" by (simp add: need_slash_def)
      with r False show ?thesis by (simp add: body_def)
    qed
    show ?thesis unfolding b i by (rule step)
  qed
qed

lemma Clean_dot: "Clean ''.'' = ''.''"
  by code_simp

lemma Clean_idempotent: "Clean (Clean p) = Clean p"
proof (cases "p = []")
  case True
  then show ?thesis by (simp add: Clean_def [of "[]"] Clean_dot)
next
  case False
  define r where "r = (hd p = CHR ''/'')"
  define res where "res = clean_loop r (drop (if r then 1 else 0) p) (init r)"
  obtain out dd where res: "res = (out, dd)" by (cases res)
  have C: "Clean p = (if out = [] then ''.'' else out)"
    using False res unfolding Clean_def res_def r_def init_def by (simp add: Let_def)
  have "cleaned r (fst (init r)) (snd (init r))"
    using cleaned.root cleaned.empty by (cases r) (simp_all add: init_def)
  then have cl: "cleaned r out dd"
    using res clean_loop_cleaned [of r "fst (init r)" "snd (init r)" _ out dd] unfolding res_def by simp
  show ?thesis
  proof (cases "out = []")
    case True
    with C show ?thesis by (simp add: Clean_dot)
  next
    case ne: False
    have hd: "(hd out = CHR ''/'') = r"
      using ne cleaned_rooted [OF cl] cleaned_unrooted [OF cl] by (cases r) auto
    have fx: "clean_loop r (body r out) (init r) = (out, dd)" by (rule cleaned_fixpoint [OF cl])
    have "Clean out = out"
      using ne hd fx unfolding Clean_def [of out] body_def init_def by (cases r) (simp_all add: Let_def)
    with C ne show ?thesis by simp
  qed
qed

lemma Join_cleaned: "\<exists>e\<in>set elem. e \<noteq> [] \<Longrightarrow> Clean (Join elem) = Join elem"
  by (induction elem) (auto simp: Clean_idempotent)

lemma Join_all_empty: "\<forall>e\<in>set elem. e = [] \<Longrightarrow> Join elem = []"
  by (induction elem) auto

lemma Clean_Nil: "Clean [] = ''.''"
  by (simp add: Clean_def)

text \<open>
  C2.  An untrusted path component with \<^verbatim>\<open>..\<close> in it is to be refused.  The output
  file path \<^verbatim>\<open>../etc/passwd\<close> joined to the build root is accepted, and the path
  handed back lies outside the build root.
\<close>

theorem joinPathSafe_accepts_dotdot:
  "joinPathSafe [pathBuildRoot, ''../etc/passwd''] = Inr ''/etc/passwd''"
  by code_simp

section \<open>The callers of joinPathSafe\<close>

lemma Clean_not_Nil: "Clean p \<noteq> []"
  by (simp add: Clean_def Let_def)

lemma Join_base_not_Nil: "base \<noteq> [] \<Longrightarrow> Join (base # xs) \<noteq> []"
  by (simp add: Clean_not_Nil)

lemma joinPathSafe_base: "base \<noteq> [] \<Longrightarrow> joinPathSafe (base # xs) = Inr (Join (base # xs))"
proof -
  assume b: "base \<noteq> []"
  then have "\<exists>e\<in>set (base # xs). e \<noteq> []" by simp
  then have "Clean (Join (base # xs)) = Join (base # xs)" by (rule Join_cleaned)
  then show ?thesis unfolding joinPathSafe_def Let_def by (simp only: simp_thms if_False)
qed

lemma pathBuildRoot_not_Nil: "pathBuildRoot \<noteq> []"
  by (simp add: pathBuildRoot_def)

lemma joinPathSafe_pathBuildRoot:
  "joinPathSafe [pathBuildRoot, x] = Inr (Join [pathBuildRoot, x])"
  by (rule joinPathSafe_base [OF pathBuildRoot_not_Nil])

lemma callD: "call f st = (r, st') \<Longrightarrow> \<exists>w'. f (world st) = (r, w')"
  by (auto simp: call_def split: prod.splits)

lemma not_rejection_symlinks:
  "\<not> is_rejection (ErrorString ''Creating symlinks in the input root is not yet supported'')"
  by (simp add: is_rejection_def)

lemma reject_nothing_Mkdir:
  assumes a: "collaborators_reject_nothing env" and c: "call (os_Mkdir env p m) st = (Some e, st')"
  shows "\<not> is_rejection e"
proof -
  from callD [OF c] obtain w' where w: "os_Mkdir env p m (world st) = (Some e, w')" by blast
  from a have "\<forall>w e w'. os_Mkdir env p m w = (Some e, w') \<longrightarrow> \<not> is_rejection e"
    unfolding collaborators_reject_nothing_def by simp
  with w show ?thesis by blast
qed

lemma reject_nothing_GetDirectory:
  assumes a: "collaborators_reject_nothing env" and c: "call (GetDirectory env i d) st = (Inl e, st')"
  shows "\<not> is_rejection e"
proof -
  from callD [OF c] obtain w' where w: "GetDirectory env i d (world st) = (Inl e, w')" by blast
  from a have "\<forall>w e w'. GetDirectory env i d w = (Inl e, w') \<longrightarrow> \<not> is_rejection e"
    unfolding collaborators_reject_nothing_def by simp
  with w show ?thesis by blast
qed

lemma reject_nothing_GetFile:
  assumes a: "collaborators_reject_nothing env" and c: "call (GetFile env i d p x) st = (Some e, st')"
  shows "\<not> is_rejection e"
proof -
  from callD [OF c] obtain w' where w: "GetFile env i d p x (world st) = (Some e, w')" by blast
  from a have "\<forall>w e w'. GetFile env i d p x w = (Some e, w') \<longrightarrow> \<not> is_rejection e"
    unfolding collaborators_reject_nothing_def by simp
  with w show ?thesis by blast
qed

lemma createInputDirectory_files_step:
  assumes "base \<noteq> []"
  shows "createInputDirectory_files env inst base (file # files) st =
     (case call (GetFile env inst (fn_Digest file) (Join [base, fn_Name file])
                   (fn_IsExecutable file)) st of
        (Some err, st1) \<Rightarrow> (Some err, st1)
      | (None, st1) \<Rightarrow> createInputDirectory_files env inst base files st1)"
  by (simp only: createInputDirectory_files.simps joinPathSafe_base [OF assms] sum.case)

lemma createInputDirectory_directories_step:
  assumes "base \<noteq> []"
  shows "createInputDirectory_directories fuel env inst base (directory # directories) st =
     (case createInputDirectory fuel env inst (dn_Digest directory)
             (Join [base, dn_Name directory]) st of
        None \<Rightarrow> None
      | Some (Some err, st1) \<Rightarrow> Some (Some err, st1)
      | Some (None, st1) \<Rightarrow>
          createInputDirectory_directories fuel env inst base directories st1)"
  by (simp only: createInputDirectory_directories.simps
        joinPathSafe_base [OF assms] sum.case)

lemma prepareFilesystem_outputs_step:
  "prepareFilesystem_outputs env (outputFile # outputFiles) st =
     (case call (os_MkdirAll env (path_Dir (Join [pathBuildRoot, outputFile])) perm_0777) st of
        (Some err, st1) \<Rightarrow> (Some err, st1)
      | (None, st1) \<Rightarrow> prepareFilesystem_outputs env outputFiles st1)"
  by (simp only: prepareFilesystem_outputs.simps joinPathSafe_pathBuildRoot sum.case)

lemma Execute_outputFiles_step:
  "Execute_outputFiles env inst (outputFile # outputFiles) result st =
     (case call (PutFile env inst (Join [pathBuildRoot, outputFile])) st of
        (Inl err, st1) \<Rightarrow>
          if os_IsNotExist err then Execute_outputFiles env inst outputFiles result st1
          else (Inl err, st1)
      | (Inr (digest, isExecutable), st1) \<Rightarrow>
          Execute_outputFiles env inst outputFiles
            (result\<lparr>ar_OutputFiles := ar_OutputFiles result @
               [\<lparr>of_Path = outputFile, of_Digest = digest,
                 of_IsExecutable = isExecutable\<rparr>]\<rparr>) st1)"
  by (simp only: Execute_outputFiles.simps joinPathSafe_pathBuildRoot sum.case)

lemma Execute_outputDirectories_step:
  "Execute_outputDirectories fuel env inst (outputDirectory # outputDirectories) result st =
     (case uploadTree fuel env inst (Join [pathBuildRoot, outputDirectory]) st of
        None \<Rightarrow> None
      | Some (Inl err, st1) \<Rightarrow> Some (Inl err, st1)
      | Some (Inr None, st1) \<Rightarrow>
          Execute_outputDirectories fuel env inst outputDirectories result st1
      | Some (Inr (Some digest), st1) \<Rightarrow>
          Execute_outputDirectories fuel env inst outputDirectories
            (result\<lparr>ar_OutputDirectories := ar_OutputDirectories result @
               [\<lparr>od_Path = outputDirectory, od_TreeDigest = digest\<rparr>]\<rparr>) st1)"
  by (simp only: Execute_outputDirectories.simps joinPathSafe_pathBuildRoot sum.case)

lemma runCommand_step:
  "runCommand env command st =
     (if length (Arguments command) < 1
      then (Some (ErrorString ''Insufficent number of command arguments''), st)
      else
        (case call (os_OpenFile env pathStdout (O_WRONLY OR O_CREATE OR O_TRUNC) 0) st of
           (Inl err, st1) \<Rightarrow> (Some err, st1)
         | (Inr stdout, st1) \<Rightarrow>
             (case call (os_OpenFile env pathStderr (O_WRONLY OR O_CREATE OR O_TRUNC) 0) st1 of
                (Inl err, st2) \<Rightarrow> (Some err, snd (call (file_Close env stdout) st2))
              | (Inr stderr, st2) \<Rightarrow>
                  (case cmd_Run env
                          \<lparr>cmd_Args = Arguments command,
                           cmd_Dir = Join [pathBuildRoot, WorkingDirectory command],
                           cmd_Env = runCommand_env [''HOME='' @ pathTempRoot]
                                       (EnvironmentVariables command),
                           cmd_Stdout = stdout,
                           cmd_Stderr = stderr,
                           cmd_Uid = 1,
                           cmd_Gid = 1\<rparr> st2 of
                     (r, st3) \<Rightarrow>
                       (r, snd (call (file_Close env stdout)
                                 (snd (call (file_Close env stderr) st3))))))))"
  by (simp only: runCommand_def joinPathSafe_pathBuildRoot sum.case)

lemma reject_nothing_MkdirAll:
  assumes a: "collaborators_reject_nothing env" and c: "call (os_MkdirAll env p m) st = (Some e, st')"
  shows "\<not> is_rejection e"
proof -
  from callD [OF c] obtain w' where w: "os_MkdirAll env p m (world st) = (Some e, w')" by blast
  from a have "\<forall>w e w'. os_MkdirAll env p m w = (Some e, w') \<longrightarrow> \<not> is_rejection e"
    unfolding collaborators_reject_nothing_def by simp
  with w show ?thesis by blast
qed

lemma reject_nothing_OpenFile:
  assumes a: "collaborators_reject_nothing env" and c: "call (os_OpenFile env p f m) st = (Inl e, st')"
  shows "\<not> is_rejection e"
proof -
  from callD [OF c] obtain w' where w: "os_OpenFile env p f m (world st) = (Inl e, w')" by blast
  from a have "\<forall>w e w'. os_OpenFile env p f m w = (Inl e, w') \<longrightarrow> \<not> is_rejection e"
    unfolding collaborators_reject_nothing_def by simp
  with w show ?thesis by blast
qed

lemma reject_nothing_Run:
  assumes a: "collaborators_reject_nothing env" and c: "cmd_Run env cmd st = (Some e, st')"
  shows "\<not> is_rejection e"
proof -
  from c have "call (process_Run env cmd) (st\<lparr>procs := procs st @ [cmd]\<rparr>) = (Some e, st')"
    by (simp add: cmd_Run_def)
  from callD [OF this] obtain w' where w: "process_Run env cmd (world st) = (Some e, w')" by auto
  from a have "\<forall>w e w'. process_Run env cmd w = (Some e, w') \<longrightarrow> \<not> is_rejection e"
    unfolding collaborators_reject_nothing_def by simp
  with w show ?thesis by blast
qed

lemma not_rejection_arguments:
  "\<not> is_rejection (ErrorString ''Insufficent number of command arguments'')"
  by (simp add: is_rejection_def)

lemma createInputDirectory_files_no_rejection:
  assumes ok: "collaborators_reject_nothing env" and base: "base \<noteq> []"
  shows "createInputDirectory_files env inst base fs st = (Some e, st') \<Longrightarrow> \<not> is_rejection e"
proof (induction fs arbitrary: st)
  case Nil
  then show ?case by simp
next
  case (Cons f fs)
  obtain g st1 where c: "call (GetFile env inst (fn_Digest f) (Join [base, fn_Name f]) (fn_IsExecutable f)) st = (g, st1)"
    by (cases "call (GetFile env inst (fn_Digest f) (Join [base, fn_Name f]) (fn_IsExecutable f)) st")
  note step = createInputDirectory_files_step [OF base, of env inst f fs st, unfolded c]
  show ?case
  proof (cases g)
    case None
    with Cons.prems step have "createInputDirectory_files env inst base fs st1 = (Some e, st')"
      by simp
    then show ?thesis by (rule Cons.IH)
  next
    case (Some err)
    with Cons.prems step have "err = e" by simp
    with c Some have "call (GetFile env inst (fn_Digest f) (Join [base, fn_Name f]) (fn_IsExecutable f)) st = (Some e, st1)"
      by simp
    with ok show ?thesis by (rule reject_nothing_GetFile)
  qed
qed

lemma createInputDirectory_no_rejection:
  assumes ok: "collaborators_reject_nothing env"
  shows "(\<forall>e st'. base \<noteq> [] \<longrightarrow> createInputDirectory fuel env inst digest base st = Some (Some e, st') \<longrightarrow> \<not> is_rejection e)"
  and "(\<forall>e st'. base \<noteq> [] \<longrightarrow> createInputDirectory_directories fuel env inst base ds st = Some (Some e, st') \<longrightarrow> \<not> is_rejection e)"
  using ok
proof (induction fuel env inst digest base st and fuel env inst base ds st
    rule: createInputDirectory_createInputDirectory_directories.induct)
  case (1 env inst digest base st)
  then show ?case by simp
next
  case (2 fuel env inst digest base st)
  note ok = "2.prems"
  show ?case
  proof (intro allI impI)
    fix e st' assume base: "base \<noteq> []"
      and a: "createInputDirectory (Suc fuel) env inst digest base st = Some (Some e, st')"
    obtain m st1 where c1: "call (os_Mkdir env base perm_0777) st = (m, st1)"
      by (cases "call (os_Mkdir env base perm_0777) st")
    show "\<not> is_rejection e"
    proof (cases m)
      case (Some err)
      with a c1 have "err = e" by simp
      with c1 Some have "call (os_Mkdir env base perm_0777) st = (Some e, st1)" by simp
      with ok show ?thesis by (rule reject_nothing_Mkdir)
    next
      case None
      obtain g st2 where c2: "call (GetDirectory env inst digest) st1 = (g, st2)"
        by (cases "call (GetDirectory env inst digest) st1")
      show ?thesis
      proof (cases g)
        case (Inl err)
        with a c1 None c2 have "err = e" by simp
        with c2 Inl have "call (GetDirectory env inst digest) st1 = (Inl e, st2)" by simp
        with ok show ?thesis by (rule reject_nothing_GetDirectory)
      next
        case (Inr directory)
        obtain f st3 where c3: "createInputDirectory_files env inst base (Files directory) st2 = (f, st3)"
          by (cases "createInputDirectory_files env inst base (Files directory) st2")
        show ?thesis
        proof (cases f)
          case (Some err)
          with a c1 None c2 Inr c3 have "err = e" by simp
          with c3 Some have "createInputDirectory_files env inst base (Files directory) st2 = (Some e, st3)"
            by simp
          then show ?thesis by (rule createInputDirectory_files_no_rejection [OF ok base])
        next
          case f: None
          note IH = 2(1) [OF c1 [symmetric] None c2 [symmetric] Inr c3 [symmetric] f ok]
          show ?thesis
          proof (cases "createInputDirectory_directories fuel env inst base (Directories directory) st3")
            case None
            with a c1 \<open>m = None\<close> c2 Inr c3 f show ?thesis by simp
          next
            case (Some res)
            obtain d st4 where res: "res = (d, st4)" by (cases res)
            show ?thesis
            proof (cases d)
              case None
              with a c1 \<open>m = None\<close> c2 Inr c3 f Some res
              have "e = ErrorString ''Creating symlinks in the input root is not yet supported''"
                by (simp split: if_splits)
              then show ?thesis by (simp only: not_rejection_symlinks not_False_eq_True)
            next
              case err: (Some err)
              with a c1 \<open>m = None\<close> c2 Inr c3 f Some res have "err = e" by simp
              with Some res err IH base show ?thesis by simp
            qed
          qed
        qed
      qed
    qed
  qed
next
  case (3 fuel env inst base st)
  then show ?case by simp
next
  case (4 fuel env inst base directory directories st)
  note ok = "4.prems"
  show ?case
  proof (intro allI impI)
    fix e st' assume base: "base \<noteq> []"
      and a: "createInputDirectory_directories fuel env inst base (directory # directories) st = Some (Some e, st')"
    have j: "joinPathSafe [base, dn_Name directory] = Inr (Join [base, dn_Name directory])"
      by (rule joinPathSafe_base [OF base])
    have child: "Join [base, dn_Name directory] \<noteq> []" by (rule Join_base_not_Nil [OF base])
    note step = createInputDirectory_directories_step [OF base, of fuel env inst directory directories st]
    show "\<not> is_rejection e"
    proof (cases "createInputDirectory fuel env inst (dn_Digest directory) (Join [base, dn_Name directory]) st")
      case None
      with a step show ?thesis by simp
    next
      case (Some res)
      obtain d st1 where res: "res = (d, st1)" by (cases res)
      show ?thesis
      proof (cases d)
        case err: (Some err)
        with a step Some res have "err = e" by simp
        with 4(1) [OF j ok] child Some res err show ?thesis by simp
      next
        case None
        with a step Some res
        have "createInputDirectory_directories fuel env inst base directories st1 = Some (Some e, st')"
          by simp
        with 4(2) [OF j Some res [symmetric] None ok] base show ?thesis by simp
      qed
    qed
  qed
qed

lemma prepareFilesystem_outputs_no_rejection:
  assumes ok: "collaborators_reject_nothing env"
  shows "prepareFilesystem_outputs env fs st = (Some e, st') \<Longrightarrow> \<not> is_rejection e"
proof (induction fs arbitrary: st)
  case Nil
  then show ?case by simp
next
  case (Cons f fs)
  obtain g st1 where c: "call (os_MkdirAll env (path_Dir (Join [pathBuildRoot, f])) perm_0777) st = (g, st1)"
    by (cases "call (os_MkdirAll env (path_Dir (Join [pathBuildRoot, f])) perm_0777) st")
  note step = prepareFilesystem_outputs_step [of env f fs st, unfolded c]
  show ?case
  proof (cases g)
    case None
    with Cons.prems step have "prepareFilesystem_outputs env fs st1 = (Some e, st')" by simp
    then show ?thesis by (rule Cons.IH)
  next
    case (Some err)
    with Cons.prems step have "err = e" by simp
    with c Some have "call (os_MkdirAll env (path_Dir (Join [pathBuildRoot, f])) perm_0777) st = (Some e, st1)"
      by simp
    with ok show ?thesis by (rule reject_nothing_MkdirAll)
  qed
qed

lemma prepareFilesystem_no_rejection:
  assumes ok: "collaborators_reject_nothing env"
    and a: "prepareFilesystem fuel env request action command st = Some (Some e, st')"
  shows "\<not> is_rejection e"
proof -
  obtain x st1 where c1: "call (os_RemoveAll env pathBuildRoot) st = (x, st1)"
    by (cases "call (os_RemoveAll env pathBuildRoot) st")
  show ?thesis
  proof (cases "createInputDirectory fuel env (InstanceName request) (InputRootDigest action) pathBuildRoot st1")
    case None
    with a c1 show ?thesis by (simp add: prepareFilesystem_def)
  next
    case (Some res)
    obtain d st2 where res: "res = (d, st2)" by (cases res)
    show ?thesis
    proof (cases d)
      case err: (Some err)
      with a c1 Some res have "err = e" by (simp add: prepareFilesystem_def)
      with Some res err createInputDirectory_no_rejection(1) [OF ok] pathBuildRoot_not_Nil
      show ?thesis by blast
    next
      case None
      obtain o3 st3 where c3: "prepareFilesystem_outputs env (OutputFiles command) st2 = (o3, st3)"
        by (cases "prepareFilesystem_outputs env (OutputFiles command) st2")
      obtain y st4 where c4: "call (os_RemoveAll env pathTempRoot) st3 = (y, st4)"
        by (cases "call (os_RemoveAll env pathTempRoot) st3")
      show ?thesis
      proof (cases o3)
        case err: (Some err)
        with a c1 Some res None c3 have "err = e" by (simp add: prepareFilesystem_def)
        with c3 err have "prepareFilesystem_outputs env (OutputFiles command) st2 = (Some e, st3)" by simp
        then show ?thesis by (rule prepareFilesystem_outputs_no_rejection [OF ok])
      next
        case o3: None
        from a c1 Some res None c3 o3 c4
        have "call (os_Mkdir env pathTempRoot perm_0777) st4 = (Some e, st')"
          by (simp add: prepareFilesystem_def)
        with ok show ?thesis by (rule reject_nothing_Mkdir)
      qed
    qed
  qed
qed

lemma runCommand_no_rejection:
  assumes ok: "collaborators_reject_nothing env"
    and a: "runCommand env command st = (Some e, st')"
  shows "\<not> is_rejection e"
proof (cases "length (Arguments command) < 1")
  case True
  with a have "e = ErrorString ''Insufficent number of command arguments''"
    by (simp add: runCommand_step)
  then show ?thesis by (simp only: not_rejection_arguments not_False_eq_True)
next
  case args: False
  obtain o1 st1 where c1: "call (os_OpenFile env pathStdout (O_WRONLY OR O_CREATE OR O_TRUNC) 0) st = (o1, st1)"
    by (cases "call (os_OpenFile env pathStdout (O_WRONLY OR O_CREATE OR O_TRUNC) 0) st")
  show ?thesis
  proof (cases o1)
    case (Inl err)
    with a args c1 have "err = e" by (simp add: runCommand_step)
    with c1 Inl have "call (os_OpenFile env pathStdout (O_WRONLY OR O_CREATE OR O_TRUNC) 0) st = (Inl e, st1)"
      by simp
    with ok show ?thesis by (rule reject_nothing_OpenFile)
  next
    case out: (Inr stdout)
    obtain o2 st2 where c2: "call (os_OpenFile env pathStderr (O_WRONLY OR O_CREATE OR O_TRUNC) 0) st1 = (o2, st2)"
      by (cases "call (os_OpenFile env pathStderr (O_WRONLY OR O_CREATE OR O_TRUNC) 0) st1")
    show ?thesis
    proof (cases o2)
      case (Inl err)
      with a args c1 out c2 have "err = e" by (simp add: runCommand_step)
      with c2 Inl have "call (os_OpenFile env pathStderr (O_WRONLY OR O_CREATE OR O_TRUNC) 0) st1 = (Inl e, st2)"
        by simp
      with ok show ?thesis by (rule reject_nothing_OpenFile)
    next
      case err: (Inr stderr)
      define cmd where "cmd = \<lparr>cmd_Args = Arguments command,
           cmd_Dir = Join [pathBuildRoot, WorkingDirectory command],
           cmd_Env = runCommand_env [''HOME='' @ pathTempRoot] (EnvironmentVariables command),
           cmd_Stdout = stdout, cmd_Stderr = stderr, cmd_Uid = 1, cmd_Gid = 1\<rparr>"
      obtain r3 st3 where c3: "cmd_Run env cmd st2 = (r3, st3)" by (cases "cmd_Run env cmd st2")
      from a args c1 out c2 err c3 have "r3 = Some e"
        by (simp add: runCommand_step cmd_def del: Join.simps)
      with c3 have "cmd_Run env cmd st2 = (Some e, st3)" by simp
      with ok show ?thesis by (rule reject_nothing_Run)
    qed
  qed
qed

text \<open>
  C3, as stated: joinPathSafe returns a path for every list of elements.  It does not
  for a list whose only element is the empty string: \<^verbatim>\<open>Join\<close> gives the empty string,
  which \<^verbatim>\<open>Clean\<close> turns into a dot.
\<close>

theorem joinPathSafe_all_empty_counterexample:
  "joinPathSafe [''''] = Inl (ErrorString ''Attempted to access non-clean path '')"
  by code_simp

text \<open>
  C3, amended: joinPathSafe returns the joined path with no error exactly when some
  element is not empty, and that path is the cleaned slash-join of the elements from the
  first non-empty one on; the error branch is taken only when no element is non-empty.
  The callers pass a base that is not empty (the build root, or a path that joinPathSafe
  returned), so none of them takes its rejection branch: at each of the six call sites
  the caller does what it does without the branch, and prepareFilesystem, the staging of
  an input tree under a non-empty base and runCommand return a rejection error only if a
  collaborator hands them one.
\<close>

theorem joinPathSafe_total_on_nonempty:
  "joinPathSafe elem =
     (if \<forall>e\<in>set elem. e = []
      then Inl (ErrorString ''Attempted to access non-clean path '')
      else Inr (Clean (strings_Join (dropWhile (\<lambda>e. e = []) elem) ''/''))) \<and>
   (base \<noteq> [] \<longrightarrow>
      joinPathSafe [base, name] = Inr (Join [base, name]) \<and> Join [base, name] \<noteq> []) \<and>
   (collaborators_reject_nothing env \<longrightarrow>
      (\<forall>fuel inst digest base st e st'.
          base \<noteq> [] \<longrightarrow>
          createInputDirectory fuel env inst digest base st = Some (Some e, st') \<longrightarrow>
          \<not> is_rejection e) \<and>
      (\<forall>fuel request action command st e st'.
          prepareFilesystem fuel env request action command st = Some (Some e, st') \<longrightarrow>
          \<not> is_rejection e) \<and>
      (\<forall>command st e st'.
          runCommand env command st = (Some e, st') \<longrightarrow> \<not> is_rejection e)) \<and>
   pathBuildRoot \<noteq> [] \<and>
   (base \<noteq> [] \<longrightarrow>
      createInputDirectory_files env inst base (file # files) st =
        (case call (GetFile env inst (fn_Digest file) (Join [base, fn_Name file])
                      (fn_IsExecutable file)) st of
           (Some err, st1) \<Rightarrow> (Some err, st1)
         | (None, st1) \<Rightarrow> createInputDirectory_files env inst base files st1)) \<and>
   (base \<noteq> [] \<longrightarrow>
      createInputDirectory_directories fuel env inst base (directory # directories) st =
        (case createInputDirectory fuel env inst (dn_Digest directory)
                (Join [base, dn_Name directory]) st of
           None \<Rightarrow> None
         | Some (Some err, st1) \<Rightarrow> Some (Some err, st1)
         | Some (None, st1) \<Rightarrow>
             createInputDirectory_directories fuel env inst base directories st1)) \<and>
   prepareFilesystem_outputs env (outputFile # outputFiles) st =
     (case call (os_MkdirAll env (path_Dir (Join [pathBuildRoot, outputFile])) perm_0777) st of
        (Some err, st1) \<Rightarrow> (Some err, st1)
      | (None, st1) \<Rightarrow> prepareFilesystem_outputs env outputFiles st1) \<and>
   runCommand env command st =
     (if length (Arguments command) < 1
      then (Some (ErrorString ''Insufficent number of command arguments''), st)
      else
        (case call (os_OpenFile env pathStdout (O_WRONLY OR O_CREATE OR O_TRUNC) 0) st of
           (Inl err, st1) \<Rightarrow> (Some err, st1)
         | (Inr stdout, st1) \<Rightarrow>
             (case call (os_OpenFile env pathStderr (O_WRONLY OR O_CREATE OR O_TRUNC) 0) st1 of
                (Inl err, st2) \<Rightarrow> (Some err, snd (call (file_Close env stdout) st2))
              | (Inr stderr, st2) \<Rightarrow>
                  (case cmd_Run env
                          \<lparr>cmd_Args = Arguments command,
                           cmd_Dir = Join [pathBuildRoot, WorkingDirectory command],
                           cmd_Env = runCommand_env [''HOME='' @ pathTempRoot]
                                       (EnvironmentVariables command),
                           cmd_Stdout = stdout,
                           cmd_Stderr = stderr,
                           cmd_Uid = 1,
                           cmd_Gid = 1\<rparr> st2 of
                     (r, st3) \<Rightarrow>
                       (r, snd (call (file_Close env stdout)
                                 (snd (call (file_Close env stderr) st3)))))))) \<and>
   Execute_outputFiles env inst (outputFile # outputFiles) result st =
     (case call (PutFile env inst (Join [pathBuildRoot, outputFile])) st of
        (Inl err, st1) \<Rightarrow>
          if os_IsNotExist err then Execute_outputFiles env inst outputFiles result st1
          else (Inl err, st1)
      | (Inr (digest, isExecutable), st1) \<Rightarrow>
          Execute_outputFiles env inst outputFiles
            (result\<lparr>ar_OutputFiles := ar_OutputFiles result @
               [\<lparr>of_Path = outputFile, of_Digest = digest,
                 of_IsExecutable = isExecutable\<rparr>]\<rparr>) st1) \<and>
   Execute_outputDirectories fuel env inst (outputDirectory # outputDirectories) result st =
     (case uploadTree fuel env inst (Join [pathBuildRoot, outputDirectory]) st of
        None \<Rightarrow> None
      | Some (Inl err, st1) \<Rightarrow> Some (Inl err, st1)
      | Some (Inr None, st1) \<Rightarrow>
          Execute_outputDirectories fuel env inst outputDirectories result st1
      | Some (Inr (Some digest), st1) \<Rightarrow>
          Execute_outputDirectories fuel env inst outputDirectories
            (result\<lparr>ar_OutputDirectories := ar_OutputDirectories result @
               [\<lparr>od_Path = outputDirectory, od_TreeDigest = digest\<rparr>]\<rparr>) st1)"
proof (intro conjI)
  show "joinPathSafe elem =
     (if \<forall>e\<in>set elem. e = []
      then Inl (ErrorString ''Attempted to access non-clean path '')
      else Inr (Clean (strings_Join (dropWhile (\<lambda>e. e = []) elem) ''/'')))"
  proof (cases "\<forall>e\<in>set elem. e = []")
    case True
    then have "Join elem = []" by (rule Join_all_empty)
    with True show ?thesis by (simp add: joinPathSafe_def Clean_Nil)
  next
    case False
    then have ex: "\<exists>e\<in>set elem. e \<noteq> []" by simp
    then have j: "Join elem = Clean (strings_Join (dropWhile (\<lambda>e. e = []) elem) ''/'')"
      by (induction elem) auto
    from ex have "Clean (Join elem) = Join elem" by (rule Join_cleaned)
    with False j show ?thesis by (simp add: joinPathSafe_def)
  qed
  show "base \<noteq> [] \<longrightarrow>
      joinPathSafe [base, name] = Inr (Join [base, name]) \<and> Join [base, name] \<noteq> []"
    using joinPathSafe_base [of base "[name]"] Join_base_not_Nil [of base "[name]"] by blast
  show "collaborators_reject_nothing env \<longrightarrow>
      (\<forall>fuel inst digest base st e st'.
          base \<noteq> [] \<longrightarrow>
          createInputDirectory fuel env inst digest base st = Some (Some e, st') \<longrightarrow>
          \<not> is_rejection e) \<and>
      (\<forall>fuel request action command st e st'.
          prepareFilesystem fuel env request action command st = Some (Some e, st') \<longrightarrow>
          \<not> is_rejection e) \<and>
      (\<forall>command st e st'.
          runCommand env command st = (Some e, st') \<longrightarrow> \<not> is_rejection e)"
    using createInputDirectory_no_rejection(1) [of env] prepareFilesystem_no_rejection [of env]
      runCommand_no_rejection [of env] by blast
  show "pathBuildRoot \<noteq> []" by (rule pathBuildRoot_not_Nil)
  show "base \<noteq> [] \<longrightarrow>
      createInputDirectory_files env inst base (file # files) st =
        (case call (GetFile env inst (fn_Digest file) (Join [base, fn_Name file])
                      (fn_IsExecutable file)) st of
           (Some err, st1) \<Rightarrow> (Some err, st1)
         | (None, st1) \<Rightarrow> createInputDirectory_files env inst base files st1)"
    by (rule impI) (rule createInputDirectory_files_step)
  show "base \<noteq> [] \<longrightarrow>
      createInputDirectory_directories fuel env inst base (directory # directories) st =
        (case createInputDirectory fuel env inst (dn_Digest directory)
                (Join [base, dn_Name directory]) st of
           None \<Rightarrow> None
         | Some (Some err, st1) \<Rightarrow> Some (Some err, st1)
         | Some (None, st1) \<Rightarrow>
             createInputDirectory_directories fuel env inst base directories st1)"
    by (rule impI) (rule createInputDirectory_directories_step)
qed (simp_all only: createInputDirectory_files_step createInputDirectory_directories_step
      prepareFilesystem_outputs_step runCommand_step Execute_outputFiles_step
      Execute_outputDirectories_step simp_thms)

theorem joinPathSafe_total_on_nonempty_witness:
  "joinPathSafe [''/build'', ''a/../../b''] = Inr ''/b'' \<and>
   joinPathSafe [''/build'', ''..''] = Inr ''/'' \<and>
   collaborators_reject_nothing (demo_env\<lparr>os_Mkdir := (\<lambda>p m w. (Some (PathError EEXIST), w))\<rparr>) \<and>
   createInputDirectory (Suc 0) (demo_env\<lparr>os_Mkdir := (\<lambda>p m w. (Some (PathError EEXIST), w))\<rparr>)
     ''main'' (demo_digest ''root'') ''/build'' demo_state = Some (Some (PathError EEXIST), demo_state) \<and>
   \<not> is_rejection (PathError EEXIST)"
proof -
  define env0 where "env0 = demo_env\<lparr>os_Mkdir := (\<lambda>p m w. (Some (PathError EEXIST), w))\<rparr>"
  note T = joinPathSafe_total_on_nonempty [where elem = "[''/build'', ''a/../../b'']"
      and base = "''/build''" and name = "''..''" and env = env0]
  have c1: "Clean ''/build/a/../../b'' = ''/b''" by code_simp
  have c2: "Join [''/build'', ''..''] = ''/''" by code_simp
  have h2: "''/build'' \<noteq> []" by simp
  have h3: "collaborators_reject_nothing env0"
    by (simp add: collaborators_reject_nothing_def env0_def demo_env_def is_rejection_def)
  have h4: "createInputDirectory (Suc 0) env0 ''main'' (demo_digest ''root'') ''/build'' demo_state
      = Some (Some (PathError EEXIST), demo_state)"
    by (simp add: env0_def demo_env_def call_def demo_state_def)
  from T [THEN conjunct1] c1 have r1: "joinPathSafe [''/build'', ''a/../../b''] = Inr ''/b''" by simp
  from T [THEN conjunct2, THEN conjunct1] h2 c2 have r2: "joinPathSafe [''/build'', ''..''] = Inr ''/''"
    by simp
  from T [THEN conjunct2, THEN conjunct2, THEN conjunct1] h3 h2 h4
  have r3: "\<not> is_rejection (PathError EEXIST)" by blast
  from r1 r2 r3 h3 h4 show ?thesis unfolding env0_def by simp
qed

section \<open>The action cache\<close>

text \<open>
  C9.  For every instance name, digest and ActionResult: when the blob store obeys the
  law that a Get yields the bytes last Put under the same key, and the protocol buffer
  library decodes what it encoded, a PutActionResult that returned no error, followed by
  GetActionResult under the same instance and digest, returns that ActionResult.
\<close>

theorem PutActionResult_then_GetActionResult:
  assumes "put_then_get blobAccess"
    and "marshal_then_unmarshal pb"
    and "PutActionResult blobAccess pb instance digest result s = (None, s')"
  shows "fst (GetActionResult blobAccess pb instance digest s') = Inr result"
proof (cases "proto_Marshal pb result")
  case (Inl err)
  with assms(3) show ?thesis by (simp add: PutActionResult_def)
next
  case (Inr data)
  with assms(3) have "ba_Put blobAccess instance digest (int (length data)) (data, None) s = (None, s')"
    by (simp add: PutActionResult_def)
  with assms(1) have g: "fst (ba_Get blobAccess instance digest s') = (data, None)"
    unfolding put_then_get_def by blast
  from assms(2) Inr have u: "proto_Unmarshal pb data = Inr result"
    unfolding marshal_then_unmarshal_def by blast
  obtain rd s1 where c: "ba_Get blobAccess instance digest s' = (rd, s1)"
    by (cases "ba_Get blobAccess instance digest s'")
  with g have "rd = (data, None)" by simp
  with c u show ?thesis by (simp add: GetActionResult_def)
qed

theorem PutActionResult_then_GetActionResult_witness:
  "put_then_get memory_blobs \<and> marshal_then_unmarshal demo_proto \<and>
   PutActionResult memory_blobs demo_proto ''main'' (demo_digest ''action'') demo_result Map.empty =
     (None, [(''main'', ''action'') \<mapsto> [1, 2, 3]]) \<and>
   fst (GetActionResult memory_blobs demo_proto ''main'' (demo_digest ''action'')
          [(''main'', ''action'') \<mapsto> [1, 2, 3]]) = Inr demo_result"
proof -
  have h1: "put_then_get memory_blobs"
    by (simp add: put_then_get_def memory_blobs_def)
  have h2: "marshal_then_unmarshal demo_proto"
    by (auto simp: marshal_then_unmarshal_def demo_proto_def split: if_splits)
  have h3: "PutActionResult memory_blobs demo_proto ''main'' (demo_digest ''action'') demo_result Map.empty =
     (None, [(''main'', ''action'') \<mapsto> [1, 2, 3]])"
    by (simp add: PutActionResult_def memory_blobs_def demo_proto_def demo_digest_def)
  from PutActionResult_then_GetActionResult [OF h1 h2 h3] h1 h2 h3 show ?thesis by simp
qed

section \<open>The input file exposer\<close>

text \<open>
  C10.  Expose opens the target path with create-exclusive semantics: no path other than
  the target changes; when a file is already at the target the call fails (with EEXIST
  unless the open fails for another reason) and the file system is left as it was; when
  none is there, a file is created with mode 0555 (365) for an executable and 0444 (292)
  otherwise, and the bytes that the blob's reader yields become its content, the reader's
  error (or the error of Get) being returned.
\<close>

theorem Expose_create_exclusive:
  assumes "Expose faults Get instance digest outputPath isExecutable (fs, s) = (r, fs', s')"
  shows "(\<forall>p. p \<noteq> outputPath \<longrightarrow> fs' p = fs p) \<and>
         (fs outputPath \<noteq> None \<longrightarrow> r \<noteq> None \<and> fs' = fs) \<and>
         (fs outputPath \<noteq> None \<longrightarrow> faults outputPath = None \<longrightarrow> r = Some (PathError EEXIST)) \<and>
         (fs outputPath = None \<longrightarrow> faults outputPath = None \<longrightarrow>
            (case Get instance digest s of
               (Inl err, s1) \<Rightarrow>
                 r = Some err \<and>
                 fs' outputPath = Some \<lparr>file_mode = (if isExecutable then 365 else 292),
                                         file_content = []\<rparr>
             | (Inr rd, s1) \<Rightarrow>
                 r = snd rd \<and>
                 fs' outputPath = Some \<lparr>file_mode = (if isExecutable then 365 else 292),
                                         file_content = fst rd\<rparr>))"
proof -
  have fl: "(O_WRONLY OR O_CREATE OR O_EXCL) AND O_CREATE \<noteq> 0"
    "(O_WRONLY OR O_CREATE OR O_EXCL) AND O_EXCL \<noteq> 0"
    by (simp_all add: O_WRONLY_def O_CREATE_def O_EXCL_def)
  show ?thesis
  proof (cases "faults outputPath")
    case (Some err)
    with assms have "r = Some err \<and> fs' = fs" by (simp add: Expose_def fs_OpenFile_def Let_def)
    with Some show ?thesis by simp
  next
    case nf: None
    show ?thesis
    proof (cases "fs outputPath")
      case (Some f)
      with assms nf fl show ?thesis by (auto simp: Expose_def fs_OpenFile_def Let_def)
    next
      case None
      obtain g s1 where g: "Get instance digest s = (g, s1)" by (cases "Get instance digest s")
      show ?thesis
      proof (cases g)
        case (Inl err)
        with assms nf None fl g show ?thesis
          by (auto simp: Expose_def fs_OpenFile_def Let_def perm_0555_def perm_0444_def)
      next
        case (Inr rd)
        with assms nf None fl g show ?thesis
          by (auto simp: Expose_def fs_OpenFile_def io_Copy_def Let_def perm_0555_def perm_0444_def)
      qed
    qed
  qed
qed

theorem Expose_create_exclusive_witness:
  "Expose (\<lambda>p. None) (\<lambda>i d s. (Inr ([104, 105], None), s)) ''main'' (demo_digest ''hello'')
      ''/build/in.txt'' True (Map.empty, ()) =
     (None, [''/build/in.txt'' \<mapsto> \<lparr>file_mode = 365, file_content = [104, 105]\<rparr>], ()) \<and>
   [''/build/in.txt'' \<mapsto> \<lparr>file_mode = 365, file_content = [104, 105::8 word]\<rparr>] ''/build/in.txt'' =
     Some \<lparr>file_mode = 365, file_content = [104, 105]\<rparr>"
proof -
  have fl: "(O_WRONLY OR O_CREATE OR O_EXCL) AND O_CREATE \<noteq> 0"
    by (simp add: O_WRONLY_def O_CREATE_def O_EXCL_def)
  have h: "Expose (\<lambda>p. None) (\<lambda>i d s. (Inr ([104, 105], None), s)) ''main'' (demo_digest ''hello'')
      ''/build/in.txt'' True (Map.empty, ()) =
     (None, [''/build/in.txt'' \<mapsto> \<lparr>file_mode = 365, file_content = [104, 105]\<rparr>], ())"
    using fl by (simp add: Expose_def fs_OpenFile_def io_Copy_def perm_0555_def)
  from Expose_create_exclusive [OF h] h show ?thesis by simp
qed

section \<open>Properties of the build executor\<close>

lemma procs_call: "procs (snd (call f st)) = procs st"
  by (simp add: call_def split: prod.splits)

lemma procs_callD: "call f st = (r, st') \<Longrightarrow> procs st' = procs st"
  using procs_call [of f st] by simp

lemma runCommand_env_eq:
  "runCommand_env acc vs = acc @ map (\<lambda>v. ev_Name v @ ''='' @ ev_Value v) vs"
  by (induction vs arbitrary: acc) auto


lemma createInputDirectory_files_procs:
  "createInputDirectory_files env inst base fs st = (r, st') \<Longrightarrow> procs st' = procs st"
proof (induction fs arbitrary: st)
  case Nil
  then show ?case by simp
next
  case (Cons f fs)
  show ?case
  proof (cases "joinPathSafe [base, fn_Name f]")
    case (Inl err)
    with Cons.prems show ?thesis by simp
  next
    case (Inr childPath)
    obtain g st1 where c: "call (GetFile env inst (fn_Digest f) childPath (fn_IsExecutable f)) st = (g, st1)"
      by (cases "call (GetFile env inst (fn_Digest f) childPath (fn_IsExecutable f)) st")
    have p: "procs st1 = procs st" using c by (rule procs_callD)
    show ?thesis
    proof (cases g)
      case None
      with Cons.prems Inr c have "createInputDirectory_files env inst base fs st1 = (r, st')" by simp
      then have "procs st' = procs st1" by (rule Cons.IH)
      with p show ?thesis by simp
    next
      case (Some err)
      with Cons.prems Inr c p show ?thesis by auto
    qed
  qed
qed

lemma createInputDirectory_procs:
  "(\<forall>r st'. createInputDirectory fuel env inst digest base st = Some (r, st') \<longrightarrow> procs st' = procs st)"
  and "(\<forall>r st'. createInputDirectory_directories fuel env inst base ds st = Some (r, st') \<longrightarrow> procs st' = procs st)"
proof (induction fuel env inst digest base st and fuel env inst base ds st
    rule: createInputDirectory_createInputDirectory_directories.induct)
  case (1 env inst digest base st)
  then show ?case by simp
next
  case (2 fuel env inst digest base st)
  show ?case
  proof (intro allI impI)
    fix r st' assume a: "createInputDirectory (Suc fuel) env inst digest base st = Some (r, st')"
    obtain m st1 where c1: "call (os_Mkdir env base perm_0777) st = (m, st1)"
      by (cases "call (os_Mkdir env base perm_0777) st")
    have p1: "procs st1 = procs st" using c1 by (rule procs_callD)
    show "procs st' = procs st"
    proof (cases m)
      case (Some err)
      with a c1 p1 show ?thesis by auto
    next
      case None
      obtain g st2 where c2: "call (GetDirectory env inst digest) st1 = (g, st2)"
        by (cases "call (GetDirectory env inst digest) st1")
      have p2: "procs st2 = procs st1" using c2 by (rule procs_callD)
      show ?thesis
      proof (cases g)
        case (Inl err)
        with a c1 None c2 p1 p2 show ?thesis by auto
      next
        case (Inr directory)
        obtain f st3 where c3: "createInputDirectory_files env inst base (Files directory) st2 = (f, st3)"
          by (cases "createInputDirectory_files env inst base (Files directory) st2")
        have p3: "procs st3 = procs st2" using c3 by (rule createInputDirectory_files_procs)
        show ?thesis
        proof (cases f)
          case (Some err)
          with a c1 None c2 Inr c3 p1 p2 p3 show ?thesis by auto
        next
          case f: None
          note IH = 2 [OF c1 [symmetric] None c2 [symmetric] Inr c3 [symmetric] f]
          show ?thesis
          proof (cases "createInputDirectory_directories fuel env inst base (Directories directory) st3")
            case None
            with a c1 \<open>m = None\<close> c2 Inr c3 f show ?thesis by simp
          next
            case (Some res)
            obtain d st4 where res: "res = (d, st4)" by (cases res)
            have p4: "procs st4 = procs st3" using IH Some res by simp
            from a c1 \<open>m = None\<close> c2 Inr c3 f Some res have "st' = st4"
              by (cases d) (auto split: if_splits)
            with p1 p2 p3 p4 show ?thesis by simp
          qed
        qed
      qed
    qed
  qed
next
  case (3 fuel env inst base st)
  then show ?case by simp
next
  case (4 fuel env inst base directory directories st)
  show ?case
  proof (intro allI impI)
    fix r st' assume a: "createInputDirectory_directories fuel env inst base (directory # directories) st = Some (r, st')"
    show "procs st' = procs st"
    proof (cases "joinPathSafe [base, dn_Name directory]")
      case (Inl err)
      with a show ?thesis by simp
    next
      case (Inr childPath)
      show ?thesis
      proof (cases "createInputDirectory fuel env inst (dn_Digest directory) childPath st")
        case None
        with a Inr show ?thesis by simp
      next
        case (Some res)
        obtain d st1 where res: "res = (d, st1)" by (cases res)
        have p1: "procs st1 = procs st" using 4(1) [OF Inr] Some res by simp
        show ?thesis
        proof (cases d)
          case (Some err)
          with a Inr \<open>createInputDirectory fuel env inst (dn_Digest directory) childPath st = Some res\<close> res p1
          show ?thesis by auto
        next
          case None
          with a Inr Some res have "createInputDirectory_directories fuel env inst base directories st1 = Some (r, st')"
            by simp
          with 4(2) [OF Inr Some res [symmetric] None] have "procs st' = procs st1" by simp
          with p1 show ?thesis by simp
        qed
      qed
    qed
  qed
qed

lemma prepareFilesystem_outputs_procs:
  "prepareFilesystem_outputs env fs st = (r, st') \<Longrightarrow> procs st' = procs st"
  by (induction fs arbitrary: st) (auto split: sum.splits prod.splits option.splits dest: procs_callD)

lemma prepareFilesystem_procs:
  assumes "prepareFilesystem fuel env request action command st = Some (r, st')"
  shows "procs st' = procs st"
proof -
  obtain x st1 where c1: "call (os_RemoveAll env pathBuildRoot) st = (x, st1)"
    by (cases "call (os_RemoveAll env pathBuildRoot) st")
  have p1: "procs st1 = procs st" using c1 by (rule procs_callD)
  show ?thesis
  proof (cases "createInputDirectory fuel env (InstanceName request) (InputRootDigest action) pathBuildRoot st1")
    case None
    with assms c1 show ?thesis by (simp add: prepareFilesystem_def)
  next
    case (Some res)
    obtain d st2 where res: "res = (d, st2)" by (cases res)
    have p2: "procs st2 = procs st1" using createInputDirectory_procs(1) Some res by blast
    show ?thesis
    proof (cases d)
      case (Some err)
      with assms c1 \<open>createInputDirectory fuel env (InstanceName request) (InputRootDigest action) pathBuildRoot st1 = Some res\<close> res p1 p2
      show ?thesis by (auto simp: prepareFilesystem_def)
    next
      case None
      obtain o3 st3 where c3: "prepareFilesystem_outputs env (OutputFiles command) st2 = (o3, st3)"
        by (cases "prepareFilesystem_outputs env (OutputFiles command) st2")
      have p3: "procs st3 = procs st2" using c3 by (rule prepareFilesystem_outputs_procs)
      obtain y st4 where c4: "call (os_RemoveAll env pathTempRoot) st3 = (y, st4)"
        by (cases "call (os_RemoveAll env pathTempRoot) st3")
      have p4: "procs st4 = procs st3" using c4 by (rule procs_callD)
      show ?thesis
      proof (cases o3)
        case (Some err)
        with assms c1 \<open>createInputDirectory fuel env (InstanceName request) (InputRootDigest action) pathBuildRoot st1 = Some res\<close> res None c3 p1 p2 p3
        show ?thesis by (auto simp: prepareFilesystem_def)
      next
        case o3: None
        from assms c1 \<open>createInputDirectory fuel env (InstanceName request) (InputRootDigest action) pathBuildRoot st1 = Some res\<close> res None c3 o3 c4
        have "call (os_Mkdir env pathTempRoot perm_0777) st4 = (r, st')"
          by (simp add: prepareFilesystem_def)
        then have "procs st' = procs st4" by (rule procs_callD)
        with p1 p2 p3 p4 show ?thesis by simp
      qed
    qed
  qed
qed

lemma Execute_outputFiles_procs:
  "Execute_outputFiles env inst fs result st = (r, st') \<Longrightarrow> procs st' = procs st"
  by (induction fs arbitrary: st result) (auto split: sum.splits prod.splits option.splits if_splits dest: procs_callD)

lemma Execute_outputFiles_ExitCode:
  "Execute_outputFiles env inst fs result st = (Inr result', st') \<Longrightarrow> ExitCode result' = ExitCode result"
  by (induction fs arbitrary: st result) (auto split: sum.splits prod.splits option.splits if_splits)

lemma uploadDirectory_procs:
  "(\<forall>r c st'. uploadDirectory fuel env inst basePath pne children st = Some (r, c, st') \<longrightarrow> procs st' = procs st)"
  and "(\<forall>r c st'. uploadDirectory_entries fuel env inst basePath fis directory children st = Some (r, c, st') \<longrightarrow> procs st' = procs st)"
proof (induction fuel env inst basePath pne children st and fuel env inst basePath fis directory children st
    rule: uploadDirectory_uploadDirectory_entries.induct)
  case (1 env inst basePath permitNonExistent children st)
  then show ?case by simp
next
  case (2 fuel env inst basePath permitNonExistent children st)
  show ?case
  proof (intro allI impI)
    fix r c st' assume a: "uploadDirectory (Suc fuel) env inst basePath permitNonExistent children st = Some (r, c, st')"
    obtain x st1 where c1: "call (ioutil_ReadDir env basePath) st = (x, st1)"
      by (cases "call (ioutil_ReadDir env basePath) st")
    have p1: "procs st1 = procs st" using c1 by (rule procs_callD)
    show "procs st' = procs st"
    proof (cases x)
      case (Inl err)
      with a c1 p1 show ?thesis by (auto split: if_splits)
    next
      case (Inr files)
      with a c1 have "uploadDirectory_entries fuel env inst basePath files
            \<lparr>Files = [], Directories = [], Symlinks = []\<rparr> children st1 = Some (r, c, st')" by simp
      with 2 [OF c1 [symmetric] Inr] p1 show ?thesis by simp
    qed
  qed
next
  case (3 fuel env inst basePath directory children st)
  then show ?case by simp
next
  case (4 fuel env inst basePath fi fis directory children st)
  define name where "name = fi_Name fi"
  define fullPath where "fullPath = Join [basePath, name]"
  show ?case
  proof (intro allI impI)
    fix r c st'
    assume a: "uploadDirectory_entries fuel env inst basePath (fi # fis) directory children st = Some (r, c, st')"
    consider (regular) "fi_Mode fi AND os_ModeType = 0"
      | (dir) "fi_Mode fi AND os_ModeType \<noteq> 0" "fi_Mode fi AND os_ModeType = os_ModeDir"
      | (link) "fi_Mode fi AND os_ModeType \<noteq> 0" "fi_Mode fi AND os_ModeType \<noteq> os_ModeDir"
          "fi_Mode fi AND os_ModeType = os_ModeSymlink"
      | (other) "fi_Mode fi AND os_ModeType \<noteq> 0" "fi_Mode fi AND os_ModeType \<noteq> os_ModeDir"
          "fi_Mode fi AND os_ModeType \<noteq> os_ModeSymlink"
      by blast
    then show "procs st' = procs st"
    proof cases
      case regular
      obtain x st1 where c1: "call (PutFile env inst fullPath) st = (x, st1)"
        by (cases "call (PutFile env inst fullPath) st")
      have p1: "procs st1 = procs st" using c1 by (rule procs_callD)
      show ?thesis
      proof (cases x)
        case (Inl err)
        with a regular c1 p1 show ?thesis by (simp add: name_def fullPath_def Let_def)
      next
        case (Inr de)
        obtain digest isExecutable where de: "de = (digest, isExecutable)" by (cases de)
        note IH = 4(1) [OF name_def fullPath_def regular c1 [symmetric] Inr de [symmetric]]
        from a regular c1 Inr de IH p1 show ?thesis by (simp add: name_def fullPath_def Let_def)
      qed
    next
      case dir
      show ?thesis
      proof (cases "uploadDirectory fuel env inst fullPath False children st")
        case None
        with a dir show ?thesis by (simp add: name_def fullPath_def Let_def)
      next
        case (Some res)
        obtain x children1 st1 where res: "res = (x, children1, st1)" by (cases res)
        have p1: "procs st1 = procs st"
          using 4(2) [OF name_def fullPath_def dir] Some res by simp
        show ?thesis
        proof (cases x)
          case (Inl err)
          with a dir Some res p1 show ?thesis by (simp add: name_def fullPath_def Let_def)
        next
          case (Inr child)
          show ?thesis
          proof (cases "DigestFromMessage env child")
            case (Inl err)
            with a dir Some res Inr p1 show ?thesis by (simp add: name_def fullPath_def Let_def)
          next
            case dg: (Inr digest)
            have rc: "(children1, st1) = snd res" using res by simp
            note IH = 4(3) [OF name_def fullPath_def dir Some res [symmetric] Inr refl dg]
            from a dir Some res Inr dg
            have "uploadDirectory_entries fuel env inst basePath fis
                (directory\<lparr>Directories := Directories directory @
                   [\<lparr>dn_Name = name, dn_Digest = digest\<rparr>]\<rparr>)
                (children1(Hash digest \<mapsto> child)) st1 = Some (r, c, st')"
              by (simp add: name_def fullPath_def Let_def del: Join.simps)
            with IH have "procs st' = procs st1" by blast
            with p1 show ?thesis by simp
          qed
        qed
      qed
    next
      case link
      obtain x st1 where c1: "call (os_Readlink env fullPath) st = (x, st1)"
        by (cases "call (os_Readlink env fullPath) st")
      have p1: "procs st1 = procs st" using c1 by (rule procs_callD)
      show ?thesis
      proof (cases x)
        case (Inl err)
        with a link c1 p1 show ?thesis by (simp add: name_def fullPath_def Let_def)
      next
        case (Inr target)
        note IH = 4(4) [OF name_def fullPath_def link c1 [symmetric] Inr]
        from a link c1 Inr IH p1 show ?thesis by (simp add: name_def fullPath_def Let_def)
      qed
    next
      case other
      with a show ?thesis by (simp add: name_def fullPath_def Let_def)
    qed
  qed
qed

lemma uploadTree_procs:
  assumes "uploadTree fuel env inst path st = Some (r, st')"
  shows "procs st' = procs st"
proof (cases "uploadDirectory fuel env inst path True Map.empty st")
  case None
  with assms show ?thesis by (simp add: uploadTree_def)
next
  case (Some res)
  obtain x children st1 where res: "res = (x, children, st1)" by (cases res)
  have p1: "procs st1 = procs st" using uploadDirectory_procs(1) Some res by blast
  show ?thesis
  proof (cases x)
    case (Inl err)
    with assms Some res p1 show ?thesis by (auto simp: uploadTree_def)
  next
    case (Inr root)
    show ?thesis
    proof (cases root)
      case None
      with assms Some res Inr p1 show ?thesis by (auto simp: uploadTree_def)
    next
      case (Some rt)
      obtain y st2 where c: "call (PutTree env inst \<lparr>Root = Some rt, Children = children_order env children\<rparr>) st1 = (y, st2)"
        by (cases "call (PutTree env inst \<lparr>Root = Some rt, Children = children_order env children\<rparr>) st1")
      have p2: "procs st2 = procs st1" using c by (rule procs_callD)
      from assms \<open>uploadDirectory fuel env inst path True Map.empty st = Some res\<close> res Inr Some c
      have "st' = st2" by (cases y) (auto simp: uploadTree_def)
      with p1 p2 show ?thesis by simp
    qed
  qed
qed

lemma Execute_outputDirectories_procs:
  "Execute_outputDirectories fuel env inst ds result st = Some (r, st') \<Longrightarrow> procs st' = procs st"
proof (induction ds arbitrary: st result)
  case Nil
  then show ?case by simp
next
  case (Cons d ds)
  show ?case
  proof (cases "joinPathSafe [pathBuildRoot, d]")
    case (Inl err)
    with Cons.prems show ?thesis by simp
  next
    case (Inr outputPath)
    show ?thesis
    proof (cases "uploadTree fuel env inst outputPath st")
      case None
      with Cons.prems Inr show ?thesis by simp
    next
      case (Some res)
      obtain x st1 where res: "res = (x, st1)" by (cases res)
      have p1: "procs st1 = procs st" using Some res uploadTree_procs by blast
      show ?thesis
      proof (cases x)
        case (Inl err)
        with Cons.prems Inr Some res p1 show ?thesis by auto
      next
        case dg: (Inr dg)
        show ?thesis
        proof (cases dg)
          case None
          with Cons.prems Inr Some res dg
          have "Execute_outputDirectories fuel env inst ds result st1 = Some (r, st')" by simp
          then have "procs st' = procs st1" by (rule Cons.IH)
          with p1 show ?thesis by simp
        next
          case (Some digest)
          with Cons.prems Inr \<open>uploadTree fuel env inst outputPath st = Some res\<close> res dg
          have "Execute_outputDirectories fuel env inst ds
                 (result\<lparr>ar_OutputDirectories := ar_OutputDirectories result @
                    [\<lparr>od_Path = d, od_TreeDigest = digest\<rparr>]\<rparr>) st1 = Some (r, st')" by simp
          then have "procs st' = procs st1" by (rule Cons.IH)
          with p1 show ?thesis by simp
        qed
      qed
    qed
  qed
qed

lemma Execute_outputDirectories_ExitCode:
  "Execute_outputDirectories fuel env inst ds result st = Some (Inr result', st') \<Longrightarrow>
   ExitCode result' = ExitCode result"
proof (induction ds arbitrary: st result)
  case Nil
  then show ?case by simp
next
  case (Cons d ds)
  show ?case
  proof (cases "joinPathSafe [pathBuildRoot, d]")
    case (Inl err)
    with Cons.prems show ?thesis by simp
  next
    case (Inr outputPath)
    show ?thesis
    proof (cases "uploadTree fuel env inst outputPath st")
      case None
      with Cons.prems Inr show ?thesis by simp
    next
      case (Some res)
      obtain x st1 where res: "res = (x, st1)" by (cases res)
      show ?thesis
      proof (cases x)
        case (Inl err)
        with Cons.prems Inr Some res show ?thesis by auto
      next
        case dg: (Inr dg)
        show ?thesis
        proof (cases dg)
          case None
          with Cons.prems Inr Some res dg
          have "Execute_outputDirectories fuel env inst ds result st1 = Some (Inr result', st')" by simp
          then show ?thesis by (rule Cons.IH)
        next
          case (Some digest)
          with Cons.prems Inr \<open>uploadTree fuel env inst outputPath st = Some res\<close> res dg
          have "Execute_outputDirectories fuel env inst ds
                 (result\<lparr>ar_OutputDirectories := ar_OutputDirectories result @
                    [\<lparr>od_Path = d, od_TreeDigest = digest\<rparr>]\<rparr>) st1 = Some (Inr result', st')" by simp
          then have "ExitCode result' = ExitCode (result\<lparr>ar_OutputDirectories := ar_OutputDirectories result @
                    [\<lparr>od_Path = d, od_TreeDigest = digest\<rparr>]\<rparr>)" by (rule Cons.IH)
          then show ?thesis by simp
        qed
      qed
    qed
  qed
qed

text \<open>What Execute returns once the command has run.\<close>

lemma Execute_upload_cases:
  assumes "Execute_upload fuel env request action command exitCode st = Some ((response, cacheable), st')"
  shows "procs st' = procs st \<and>
         ((\<exists>err. response = convertErrorToExecuteResponse env err \<and> \<not> cacheable) \<or>
          (\<exists>result. response = \<lparr>Result = Some result, Status = None\<rparr> \<and>
             ExitCode result = word_of_int exitCode \<and>
             (cacheable \<longleftrightarrow> \<not> DoNotCache action \<and> ExitCode result = 0)))"
proof -
  let ?i = "InstanceName request"
  obtain o1 st1 where c1: "call (PutFile env ?i pathStdout) st = (o1, st1)"
    by (cases "call (PutFile env ?i pathStdout) st")
  have p1: "procs st1 = procs st" using c1 by (rule procs_callD)
  show ?thesis
  proof (cases o1)
    case (Inl err)
    with assms c1 p1 show ?thesis by (auto simp: Execute_upload_def)
  next
    case i1: (Inr d1)
    obtain stdoutDigest x1 where d1: "d1 = (stdoutDigest, x1)" by (cases d1)
    obtain o2 st2 where c2: "call (PutFile env ?i pathStderr) st1 = (o2, st2)"
      by (cases "call (PutFile env ?i pathStderr) st1")
    have p2: "procs st2 = procs st1" using c2 by (rule procs_callD)
    show ?thesis
    proof (cases o2)
      case (Inl err)
      with assms c1 i1 d1 c2 p1 p2 show ?thesis by (auto simp: Execute_upload_def)
    next
      case i2: (Inr d2)
      obtain stderrDigest x2 where d2: "d2 = (stderrDigest, x2)" by (cases d2)
      define result0 where "result0 = \<lparr>ExitCode = word_of_int exitCode,
                        StdoutDigest = stdoutDigest,
                        StderrDigest = stderrDigest,
                        ar_OutputFiles = [],
                        ar_OutputDirectories = []\<rparr>"
      obtain o3 st3 where c3: "Execute_outputFiles env ?i (OutputFiles command) result0 st2 = (o3, st3)"
        by (cases "Execute_outputFiles env ?i (OutputFiles command) result0 st2")
      have p3: "procs st3 = procs st2" using c3 by (rule Execute_outputFiles_procs)
      show ?thesis
      proof (cases o3)
        case (Inl err)
        with assms c1 i1 d1 c2 i2 d2 c3 p1 p2 p3 show ?thesis
          by (auto simp: Execute_upload_def result0_def)
      next
        case i3: (Inr result1)
        have e1: "ExitCode result1 = word_of_int exitCode"
          using Execute_outputFiles_ExitCode c3 i3 result0_def by fastforce
        show ?thesis
        proof (cases "Execute_outputDirectories fuel env ?i (OutputDirectories command) result1 st3")
          case None
          with assms c1 i1 d1 c2 i2 d2 c3 i3 show ?thesis
            by (simp add: Execute_upload_def result0_def)
        next
          case (Some res)
          obtain o4 st4 where res: "res = (o4, st4)" by (cases res)
          have p4: "procs st4 = procs st3" using Some res Execute_outputDirectories_procs by blast
          show ?thesis
          proof (cases o4)
            case (Inl err)
            with assms c1 i1 d1 c2 i2 d2 c3 i3 Some res p1 p2 p3 p4 show ?thesis
              by (auto simp: Execute_upload_def result0_def)
          next
            case (Inr result2)
            have e2: "ExitCode result2 = word_of_int exitCode"
              using Execute_outputDirectories_ExitCode Some res Inr e1 by fastforce
            from assms c1 i1 d1 c2 i2 d2 c3 i3 Some res Inr
            have "response = \<lparr>Result = Some result2, Status = None\<rparr>"
              and "cacheable = (\<not> DoNotCache action \<and> ExitCode result2 = 0)" and "st' = st4"
              by (auto simp: Execute_upload_def result0_def)
            with e2 p1 p2 p3 p4 show ?thesis by auto
          qed
        qed
      qed
    qed
  qed
qed

text \<open>The ways through Execute, for a run that returns.\<close>

lemma Execute_paths:
  assumes a: "Execute fuel env request st = Some ((response, cacheable), st')"
  shows
   "(\<exists>err. call (GetAction env (InstanceName request) (ActionDigest request)) st = (Inl err, st') \<and>
        response = convertErrorToExecuteResponse env err \<and> \<not> cacheable) \<or>
    (\<exists>action st1.
        call (GetAction env (InstanceName request) (ActionDigest request)) st = (Inr action, st1) \<and>
        ((\<exists>err. call (GetCommand env (InstanceName request) (CommandDigest action)) st1 = (Inl err, st') \<and>
            response = convertErrorToExecuteResponse env err \<and> \<not> cacheable) \<or>
         (\<exists>command st2.
            call (GetCommand env (InstanceName request) (CommandDigest action)) st1 = (Inr command, st2) \<and>
            ((\<exists>err. prepareFilesystem fuel env request action command st2 = Some (Some err, st') \<and>
                response = convertErrorToExecuteResponse env err \<and> \<not> cacheable) \<or>
             (\<exists>st3. prepareFilesystem fuel env request action command st2 = Some (None, st3) \<and>
                ((\<exists>err. runCommand env command st3 = (Some err, st') \<and> (\<forall>ws. err \<noteq> ExitError ws) \<and>
                    response = convertErrorToExecuteResponse env err \<and> \<not> cacheable) \<or>
                 (\<exists>r st4 exitCode. runCommand env command st3 = (r, st4) \<and>
                    (r = None \<and> exitCode = 0 \<or> (\<exists>ws. r = Some (ExitError ws) \<and> exitCode = ExitStatus ws)) \<and>
                    Execute_upload fuel env request action command exitCode st4 =
                      Some ((response, cacheable), st'))))))))"
proof -
  let ?i = "InstanceName request"
  obtain o1 st1 where c1: "call (GetAction env ?i (ActionDigest request)) st = (o1, st1)"
    by (cases "call (GetAction env ?i (ActionDigest request)) st")
  show ?thesis
  proof (cases o1)
    case (Inl err)
    with a c1 show ?thesis by (auto simp: Execute_def)
  next
    case i1: (Inr action)
    obtain o2 st2 where c2: "call (GetCommand env ?i (CommandDigest action)) st1 = (o2, st2)"
      by (cases "call (GetCommand env ?i (CommandDigest action)) st1")
    show ?thesis
    proof (cases o2)
      case (Inl err)
      with a c1 i1 c2 show ?thesis by (auto simp: Execute_def)
    next
      case i2: (Inr command)
      show ?thesis
      proof (cases "prepareFilesystem fuel env request action command st2")
        case None
        with a c1 i1 c2 i2 show ?thesis by (simp add: Execute_def)
      next
        case (Some res)
        obtain o3 st3 where res: "res = (o3, st3)" by (cases res)
        show ?thesis
        proof (cases o3)
          case (Some err)
          with a c1 i1 c2 i2 \<open>prepareFilesystem fuel env request action command st2 = Some res\<close> res
          show ?thesis by (auto simp: Execute_def)
        next
          case n3: None
          obtain r st4 where c4: "runCommand env command st3 = (r, st4)"
            by (cases "runCommand env command st3")
          have pre: "call (GetAction env ?i (ActionDigest request)) st = (Inr action, st1)"
            "call (GetCommand env ?i (CommandDigest action)) st1 = (Inr command, st2)"
            "prepareFilesystem fuel env request action command st2 = Some (None, st3)"
            using c1 i1 c2 i2 Some res n3 by simp_all
          show ?thesis
          proof (cases r)
            case None
            with a pre c4 have "Execute_upload fuel env request action command 0 st4 =
                      Some ((response, cacheable), st')" by (simp add: Execute_def)
            with pre c4 None show ?thesis by blast
          next
            case (Some err)
            show ?thesis
            proof (cases "\<exists>ws. err = ExitError ws")
              case True
              then obtain ws where ws: "err = ExitError ws" by blast
              with a pre c4 Some have "Execute_upload fuel env request action command (ExitStatus ws) st4 =
                      Some ((response, cacheable), st')" by (simp add: Execute_def)
              with pre c4 Some ws show ?thesis by blast
            next
              case False
              with a pre c4 Some have "response = convertErrorToExecuteResponse env err \<and> \<not> cacheable \<and> st' = st4"
                by (cases err) (auto simp: Execute_def)
              with pre c4 Some False show ?thesis by blast
            qed
          qed
        qed
      qed
    qed
  qed
qed

lemma ExitStatus_nonzero:
  assumes "ExitStatus ws \<noteq> 0"
  shows "(word_of_int (ExitStatus ws) :: 32 word) \<noteq> 0"
proof (cases "ws AND 127 \<noteq> 0")
  case True
  then show ?thesis by (simp add: ExitStatus_def)
next
  case False
  then have e: "ExitStatus ws = uint (drop_bit 8 ws AND 255)" by (simp add: ExitStatus_def)
  with assms have "drop_bit 8 ws AND 255 \<noteq> 0" by auto
  with e show ?thesis by simp
qed

lemma demo_calls:
  "call (GetAction (demo_env_with a c r) i d) st = (Inr a, st)"
  "call (GetCommand (demo_env_with a c r) i d) st = (Inr c, st)"
  "call (GetDirectory (demo_env_with a c r) i d) st = (Inr (demo_directory d), st)"
  "call (GetFile (demo_env_with a c r) i d p x) st = (None, st)"
  "call (os_RemoveAll (demo_env_with a c r) p) st = (None, st)"
  "call (os_Mkdir (demo_env_with a c r) p m) st = (None, st)"
  "call (os_MkdirAll (demo_env_with a c r) p m) st = (None, st)"
  "call (os_OpenFile (demo_env_with a c r) p f m) st = (Inr (if p = ''/stdout'' then 3 else 4), st)"
  "call (file_Close (demo_env_with a c r) h) st = (None, st)"
  "call (process_Run (demo_env_with a c r) cmd) st = (r, st)"
  "call (PutTree (demo_env_with a c r) i t) st = (Inr (demo_digest ''tree''), st)"
  by (simp_all add: call_def demo_env_with_def demo_env_def)

lemma demo_PutFile:
  "call (PutFile (demo_env_with a c r) i p) st =
     (if p \<in> set [''/stdout'', ''/stderr'', ''/build/out.txt'', ''/build/outdir/a'']
      then Inr (demo_digest p, False) else Inl (PathError ENOENT), st)"
  by (simp add: call_def demo_env_with_def demo_env_def)

lemma demo_ReadDir:
  "call (ioutil_ReadDir (demo_env_with a c r) p) st =
     (if p = ''/build/outdir'' then Inr [\<lparr>fi_Name = ''a'', fi_Mode = 420\<rparr>]
      else Inl (PathError ENOENT), st)"
  by (simp add: call_def demo_env_with_def demo_env_def)

lemma demo_createInputDirectory_files:
  "base \<noteq> [] \<Longrightarrow> createInputDirectory_files (demo_env_with a c r) i base fs st = (None, st)"
  by (induction fs) (simp_all add: joinPathSafe_base demo_calls del: Join.simps)

lemma demo_createInputDirectory:
  "createInputDirectory (Suc (Suc 0)) (demo_env_with a c r) i (demo_digest ''root'') pathBuildRoot st
     = Some (None, st)"
  by (simp add: demo_calls demo_createInputDirectory_files pathBuildRoot_not_Nil
      joinPathSafe_pathBuildRoot Join_base_not_Nil demo_directory_def demo_digest_def
      del: Join.simps)

lemma demo_prepareFilesystem_outputs:
  "prepareFilesystem_outputs (demo_env_with a c r) fs st = (None, st)"
  by (induction fs) (simp_all add: joinPathSafe_pathBuildRoot demo_calls del: Join.simps)

lemma demo_prepareFilesystem:
  "InputRootDigest a' = demo_digest ''root'' \<Longrightarrow>
   prepareFilesystem (Suc (Suc 0)) (demo_env_with a c r) request a' c' st = Some (None, st)"
  by (simp add: prepareFilesystem_def demo_calls demo_createInputDirectory
      demo_prepareFilesystem_outputs del: createInputDirectory.simps)

lemma demo_runCommand:
  "Arguments c' \<noteq> [] \<Longrightarrow>
   runCommand (demo_env_with a c r) c' st =
     (r, st\<lparr>procs := procs st @
        [\<lparr>cmd_Args = Arguments c', cmd_Dir = Join [pathBuildRoot, WorkingDirectory c'],
          cmd_Env = ''HOME=/tmp'' # map (\<lambda>v. ev_Name v @ ''='' @ ev_Value v) (EnvironmentVariables c'),
          cmd_Stdout = 3, cmd_Stderr = 4, cmd_Uid = 1, cmd_Gid = 1\<rparr>]\<rparr>)"
  by (simp add: runCommand_step demo_calls cmd_Run_def runCommand_env_eq pathStdout_def
      pathStderr_def pathTempRoot_def del: Join.simps)

lemma demo_paths:
  "Join [pathBuildRoot, ''out.txt''] = ''/build/out.txt''"
  "Join [pathBuildRoot, ''missing.txt''] = ''/build/missing.txt''"
  "Join [pathBuildRoot, ''nodir''] = ''/build/nodir''"
  "Join [pathBuildRoot, ''outdir''] = ''/build/outdir''"
  "Join [''/build/outdir'', ''a''] = ''/build/outdir/a''"
  "Join [pathBuildRoot, ''''] = ''/build''"
  by code_simp+

lemma demo_regular: "(420 :: 32 word) AND os_ModeType = 0"
  by (simp add: os_ModeType_def os_ModeDir_def os_ModeSymlink_def os_ModeNamedPipe_def
      os_ModeSocket_def os_ModeDevice_def os_ModeCharDevice_def os_ModeIrregular_def)

lemma demo_Execute_outputFiles:
  "Execute_outputFiles (demo_env_with a c r) i [''out.txt'', ''missing.txt''] result st =
     (Inr (result\<lparr>ar_OutputFiles := ar_OutputFiles result @
        [\<lparr>of_Path = ''out.txt'', of_Digest = demo_digest ''/build/out.txt'',
          of_IsExecutable = False\<rparr>]\<rparr>), st)"
  by (simp add: joinPathSafe_pathBuildRoot demo_paths demo_PutFile ENOENT_def del: Join.simps)

lemma demo_uploadTree_nodir:
  "uploadTree (Suc (Suc 0)) (demo_env_with a c r) i ''/build/nodir'' st = Some (Inr None, st)"
  by (simp add: uploadTree_def demo_ReadDir ENOENT_def)

lemma demo_uploadTree_outdir:
  "uploadTree (Suc (Suc 0)) (demo_env_with a c r) i ''/build/outdir'' st =
     Some (Inr (Some (demo_digest ''tree'')), st)"
  by (simp add: uploadTree_def demo_ReadDir demo_regular demo_paths demo_PutFile demo_calls Let_def
      del: Join.simps)

lemma demo_Execute_outputDirectories:
  "Execute_outputDirectories (Suc (Suc 0)) (demo_env_with a c r) i [''nodir'', ''outdir''] result st =
     Some (Inr (result\<lparr>ar_OutputDirectories := ar_OutputDirectories result @
        [\<lparr>od_Path = ''outdir'', od_TreeDigest = demo_digest ''tree''\<rparr>]\<rparr>), st)"
  by (simp add: joinPathSafe_pathBuildRoot demo_paths demo_uploadTree_nodir demo_uploadTree_outdir
      del: Join.simps uploadDirectory.simps)

lemma demo_Execute_upload:
  "Execute_upload (Suc (Suc 0)) (demo_env_with a c r) request action demo_command exitCode st =
     Some ((\<lparr>Result = Some \<lparr>ExitCode = word_of_int exitCode,
                StdoutDigest = demo_digest ''/stdout'', StderrDigest = demo_digest ''/stderr'',
                ar_OutputFiles = [\<lparr>of_Path = ''out.txt'', of_Digest = demo_digest ''/build/out.txt'',
                                   of_IsExecutable = False\<rparr>],
                ar_OutputDirectories = [\<lparr>od_Path = ''outdir'', od_TreeDigest = demo_digest ''tree''\<rparr>]\<rparr>,
             Status = None\<rparr>,
            \<not> DoNotCache action \<and> (word_of_int exitCode :: 32 word) = 0), st)"
  by (simp add: Execute_upload_def demo_PutFile pathStdout_def pathStderr_def demo_command_def
      demo_Execute_outputFiles demo_Execute_outputDirectories
      del: Execute_outputFiles.simps Execute_outputDirectories.simps)

lemma demo_Execute:
  "Execute (Suc (Suc 0)) (demo_env_with demo_action demo_command None) demo_request demo_state =
     Some ((\<lparr>Result = Some \<lparr>ExitCode = 0,
                StdoutDigest = demo_digest ''/stdout'', StderrDigest = demo_digest ''/stderr'',
                ar_OutputFiles = [\<lparr>of_Path = ''out.txt'', of_Digest = demo_digest ''/build/out.txt'',
                                   of_IsExecutable = False\<rparr>],
                ar_OutputDirectories = [\<lparr>od_Path = ''outdir'', od_TreeDigest = demo_digest ''tree''\<rparr>]\<rparr>,
             Status = None\<rparr>, True),
           \<lparr>procs = [\<lparr>cmd_Args = [''/bin/cp'', ''in.txt'', ''out.txt''], cmd_Dir = ''/build'',
                       cmd_Env = [''HOME=/tmp'', ''PATH=/bin''],
                       cmd_Stdout = 3, cmd_Stderr = 4, cmd_Uid = 1, cmd_Gid = 1\<rparr>],
            world = ()\<rparr>)"
proof -
  have a: "Arguments demo_command \<noteq> []" by (simp add: demo_command_def)
  have r: "InputRootDigest demo_action = demo_digest ''root''" by (simp add: demo_action_def)
  show ?thesis
    by (simp add: Execute_def demo_calls demo_prepareFilesystem [OF r] demo_runCommand [OF a]
        demo_Execute_upload demo_paths del: Join.simps)
       (simp add: demo_command_def demo_action_def demo_state_def demo_paths del: Join.simps)
qed

lemma demo_Execute_outcome:
  "Execute (Suc (Suc 0)) (demo_env_with demo_action demo_command None) demo_request demo_state =
     Some ((\<lparr>Result = Some (demo_outcome 0), Status = None\<rparr>, True),
           \<lparr>procs = [demo_cmd], world = ()\<rparr>)"
  using demo_Execute by (simp add: demo_outcome_def demo_cmd_def)

lemma demo_Execute_without_arguments:
  "Execute (Suc (Suc 0)) (demo_env_with demo_action (demo_command\<lparr>Arguments := []\<rparr>) None)
      demo_request demo_state =
     Some ((convertErrorToExecuteResponse
              (demo_env_with demo_action (demo_command\<lparr>Arguments := []\<rparr>) None)
              (ErrorString ''Insufficent number of command arguments''), False), demo_state)"
proof -
  have r: "InputRootDigest demo_action = demo_digest ''root''" by (simp add: demo_action_def)
  show ?thesis
    by (simp add: Execute_def demo_calls demo_prepareFilesystem [OF r] runCommand_def)
qed

lemma demo_ExitStatus: "ExitStatus 256 = 1"
  by (simp add: ExitStatus_def)

section \<open>The claims about Execute\<close>

text \<open>
  C1.  An Execute that returns has taken one of two ways.  Either it returns the response
  that convertErrorToExecuteResponse builds from an error, and the flag is false.  Or it
  has run the command and built an ActionResult, which the response holds, and the flag
  is true exactly when DoNotCache of the action is false and the exit code of the result
  is 0.
\<close>

theorem Execute_cacheable:
  assumes "Execute fuel env request st = Some ((response, cacheable), st')"
  shows "(\<exists>err. response = convertErrorToExecuteResponse env err \<and> \<not> cacheable) \<or>
         (\<exists>action st1 result.
            call (GetAction env (InstanceName request) (ActionDigest request)) st = (Inr action, st1) \<and>
            response = \<lparr>Result = Some result, Status = None\<rparr> \<and>
            (cacheable \<longleftrightarrow> \<not> DoNotCache action \<and> ExitCode result = 0))"
  using Execute_paths [OF assms] Execute_upload_cases [of fuel env request _ _ _ _ response cacheable st']
  by (elim disjE exE conjE) blast+

theorem Execute_cacheable_witness:
  "Execute (Suc (Suc 0)) (demo_env_with demo_action demo_command None) demo_request demo_state =
     Some ((\<lparr>Result = Some (demo_outcome 0), Status = None\<rparr>, True),
           \<lparr>procs = [demo_cmd], world = ()\<rparr>) \<and>
   \<not> DoNotCache demo_action \<and> ExitCode (demo_outcome 0) = 0"
  using Execute_cacheable [OF demo_Execute_outcome] demo_Execute_outcome
  by (auto simp: demo_calls)

text \<open>
  C4.  Let the action and the command be fetched and the file system prepared.  When
  runCommand returns an ExitError, Execute does not return an error for it: it goes on
  to the uploads with the exit status of the wait status (the exit code of a process that
  exited, -1 otherwise).  When that status is not 0 the flag of whatever Execute returns
  is false, a result it returns carries the status as its exit code, and when the uploads
  of stdout, stderr and the outputs succeed Execute returns a response holding that
  result.  When runCommand returns an error that is not an ExitError, Execute returns the
  error response built from it.
\<close>

theorem Execute_nonzero_exit:
  assumes g1: "call (GetAction env (InstanceName request) (ActionDigest request)) st = (Inr action, st1)"
    and g2: "call (GetCommand env (InstanceName request) (CommandDigest action)) st1 = (Inr command, st2)"
    and g3: "prepareFilesystem fuel env request action command st2 = Some (None, st3)"
  shows
   "(\<forall>ws st4. runCommand env command st3 = (Some (ExitError ws), st4) \<longrightarrow>
       Execute fuel env request st =
         Execute_upload fuel env request action command (ExitStatus ws) st4 \<and>
       (ExitStatus ws \<noteq> 0 \<longrightarrow>
          (\<forall>response cacheable st'.
              Execute fuel env request st = Some ((response, cacheable), st') \<longrightarrow>
              \<not> cacheable \<and>
              ((\<exists>err. response = convertErrorToExecuteResponse env err) \<or>
               (\<exists>result. response = \<lparr>Result = Some result, Status = None\<rparr> \<and>
                  ExitCode result = word_of_int (ExitStatus ws) \<and> ExitCode result \<noteq> 0))) \<and>
          (\<forall>d1 x1 st5 d2 x2 st6 result1 st7 result2 st8.
              call (PutFile env (InstanceName request) pathStdout) st4 = (Inr (d1, x1), st5) \<longrightarrow>
              call (PutFile env (InstanceName request) pathStderr) st5 = (Inr (d2, x2), st6) \<longrightarrow>
              Execute_outputFiles env (InstanceName request) (OutputFiles command)
                \<lparr>ExitCode = word_of_int (ExitStatus ws), StdoutDigest = d1, StderrDigest = d2,
                 ar_OutputFiles = [], ar_OutputDirectories = []\<rparr> st6 = (Inr result1, st7) \<longrightarrow>
              Execute_outputDirectories fuel env (InstanceName request)
                (OutputDirectories command) result1 st7 = Some (Inr result2, st8) \<longrightarrow>
              Execute fuel env request st =
                Some ((\<lparr>Result = Some result2, Status = None\<rparr>, False), st8) \<and>
              ExitCode result2 = word_of_int (ExitStatus ws)))) \<and>
    (\<forall>err st4. runCommand env command st3 = (Some err, st4) \<longrightarrow> (\<forall>ws. err \<noteq> ExitError ws) \<longrightarrow>
       Execute fuel env request st = Some ((convertErrorToExecuteResponse env err, False), st4))"
proof (intro conjI allI impI)
  fix ws st4
  assume r: "runCommand env command st3 = (Some (ExitError ws), st4)"
  show e: "Execute fuel env request st =
         Execute_upload fuel env request action command (ExitStatus ws) st4"
    using g1 g2 g3 r by (simp add: Execute_def)
  assume nz: "ExitStatus ws \<noteq> 0"
  have wnz: "(word_of_int (ExitStatus ws) :: 32 word) \<noteq> 0" using nz by (rule ExitStatus_nonzero)
  {
    fix response cacheable st'
    assume a: "Execute fuel env request st = Some ((response, cacheable), st')"
    with e have u: "Execute_upload fuel env request action command (ExitStatus ws) st4 =
        Some ((response, cacheable), st')" by simp
    from Execute_upload_cases [OF u] wnz
    have "\<not> cacheable \<and>
              ((\<exists>err. response = convertErrorToExecuteResponse env err) \<or>
               (\<exists>result. response = \<lparr>Result = Some result, Status = None\<rparr> \<and>
                  ExitCode result = word_of_int (ExitStatus ws) \<and> ExitCode result \<noteq> 0))"
      by auto
    then show "\<not> cacheable" and "(\<exists>err. response = convertErrorToExecuteResponse env err) \<or>
               (\<exists>result. response = \<lparr>Result = Some result, Status = None\<rparr> \<and>
                  ExitCode result = word_of_int (ExitStatus ws) \<and> ExitCode result \<noteq> 0)"
      by blast+
  }
  {
    fix d1 x1 st5 d2 x2 st6 result1 st7 result2 st8
    assume u1: "call (PutFile env (InstanceName request) pathStdout) st4 = (Inr (d1, x1), st5)"
      and u2: "call (PutFile env (InstanceName request) pathStderr) st5 = (Inr (d2, x2), st6)"
      and u3: "Execute_outputFiles env (InstanceName request) (OutputFiles command)
                \<lparr>ExitCode = word_of_int (ExitStatus ws), StdoutDigest = d1, StderrDigest = d2,
                 ar_OutputFiles = [], ar_OutputDirectories = []\<rparr> st6 = (Inr result1, st7)"
      and u4: "Execute_outputDirectories fuel env (InstanceName request)
                (OutputDirectories command) result1 st7 = Some (Inr result2, st8)"
    have "ExitCode result1 = word_of_int (ExitStatus ws)"
      using Execute_outputFiles_ExitCode [OF u3] by simp
    with Execute_outputDirectories_ExitCode [OF u4]
    show c: "ExitCode result2 = word_of_int (ExitStatus ws)" by simp
    with wnz have "ExitCode result2 \<noteq> 0" by simp
    with e u1 u2 u3 u4
    show "Execute fuel env request st =
                Some ((\<lparr>Result = Some result2, Status = None\<rparr>, False), st8)"
      by (simp add: Execute_upload_def)
  }
next
  fix err st4
  assume r: "runCommand env command st3 = (Some err, st4)" and ne: "\<forall>ws. err \<noteq> ExitError ws"
  then show "Execute fuel env request st = Some ((convertErrorToExecuteResponse env err, False), st4)"
    using g1 g2 g3 by (cases err) (simp_all add: Execute_def)
qed

theorem Execute_nonzero_exit_witness:
  "runCommand (demo_env_with demo_action demo_command (Some (ExitError 256))) demo_command demo_state =
     (Some (ExitError 256), \<lparr>procs = [demo_cmd], world = ()\<rparr>) \<and>
   ExitStatus 256 \<noteq> 0 \<and>
   Execute (Suc (Suc 0)) (demo_env_with demo_action demo_command (Some (ExitError 256)))
      demo_request demo_state =
     Some ((\<lparr>Result = Some (demo_outcome 1), Status = None\<rparr>, False),
           \<lparr>procs = [demo_cmd], world = ()\<rparr>)"
proof -
  let ?env = "demo_env_with demo_action demo_command (Some (ExitError 256))"
  let ?st = "\<lparr>procs = [demo_cmd], world = ()\<rparr>"
  have a: "Arguments demo_command \<noteq> []" by (simp add: demo_command_def)
  have rt: "InputRootDigest demo_action = demo_digest ''root''" by (simp add: demo_action_def)
  have g1: "call (GetAction ?env (InstanceName demo_request) (ActionDigest demo_request)) demo_state =
      (Inr demo_action, demo_state)" by (rule demo_calls)
  have g2: "call (GetCommand ?env (InstanceName demo_request) (CommandDigest demo_action)) demo_state =
      (Inr demo_command, demo_state)" by (rule demo_calls)
  have g3: "prepareFilesystem (Suc (Suc 0)) ?env demo_request demo_action demo_command demo_state =
      Some (None, demo_state)" by (rule demo_prepareFilesystem [OF rt])
  have r: "runCommand ?env demo_command demo_state = (Some (ExitError 256), ?st)"
    using demo_runCommand [OF a, of demo_action demo_command "Some (ExitError 256)" demo_state]
    by (simp add: demo_state_def demo_cmd_def demo_command_def demo_paths del: Join.simps)
  have nz: "ExitStatus 256 \<noteq> 0" by (simp add: demo_ExitStatus)
  have u1: "call (PutFile ?env (InstanceName demo_request) pathStdout) ?st =
      (Inr (demo_digest ''/stdout'', False), ?st)"
    by (simp add: demo_PutFile pathStdout_def)
  have u2: "call (PutFile ?env (InstanceName demo_request) pathStderr) ?st =
      (Inr (demo_digest ''/stderr'', False), ?st)"
    by (simp add: demo_PutFile pathStderr_def)
  have u3: "Execute_outputFiles ?env (InstanceName demo_request) (OutputFiles demo_command)
      \<lparr>ExitCode = word_of_int (ExitStatus 256), StdoutDigest = demo_digest ''/stdout'',
       StderrDigest = demo_digest ''/stderr'', ar_OutputFiles = [], ar_OutputDirectories = []\<rparr> ?st =
      (Inr \<lparr>ExitCode = 1, StdoutDigest = demo_digest ''/stdout'',
       StderrDigest = demo_digest ''/stderr'',
       ar_OutputFiles = [\<lparr>of_Path = ''out.txt'', of_Digest = demo_digest ''/build/out.txt'',
                         of_IsExecutable = False\<rparr>], ar_OutputDirectories = []\<rparr>, ?st)"
    by (simp add: demo_command_def demo_Execute_outputFiles demo_ExitStatus
        del: Execute_outputFiles.simps)
  have u4: "Execute_outputDirectories (Suc (Suc 0)) ?env (InstanceName demo_request)
      (OutputDirectories demo_command)
      \<lparr>ExitCode = 1, StdoutDigest = demo_digest ''/stdout'',
       StderrDigest = demo_digest ''/stderr'',
       ar_OutputFiles = [\<lparr>of_Path = ''out.txt'', of_Digest = demo_digest ''/build/out.txt'',
                         of_IsExecutable = False\<rparr>], ar_OutputDirectories = []\<rparr> ?st =
      Some (Inr (demo_outcome 1), ?st)"
    by (simp add: demo_command_def demo_Execute_outputDirectories demo_outcome_def
        del: Execute_outputDirectories.simps)
  note T = Execute_nonzero_exit [OF g1 g2 g3, THEN conjunct1, rule_format, OF r, THEN conjunct2,
      rule_format, OF nz, THEN conjunct2, rule_format, OF u1 u2 u3 u4, THEN conjunct1]
  from r nz T show ?thesis by blast
qed

text \<open>
  C6, as stated: with an empty argument vector the run-command stage fails with
  InvalidArgument.  The error that runCommand returns is the one \<^verbatim>\<open>errors.New\<close> builds:
  a message without a status code.
\<close>

theorem runCommand_without_arguments_counterexample:
  "fst (runCommand (demo_env_with demo_action (demo_command\<lparr>Arguments := []\<rparr>) None)
          (demo_command\<lparr>Arguments := []\<rparr>) demo_state) =
     Some (ErrorString ''Insufficent number of command arguments'') \<and>
   status_code (ErrorString ''Insufficent number of command arguments'') \<noteq> Some InvalidArgument"
  by (simp add: runCommand_def)

text \<open>
  C6, amended: with an empty argument vector runCommand returns the error with the message
  \<^verbatim>\<open>Insufficent number of command arguments\<close>, which carries no status code, and leaves
  the state as it was: no file is opened and no process is spawned.  An Execute that
  fetched such a command and returns has spawned no process, its flag is false, and its
  response is the error response built from that error, or from the error of
  prepareFilesystem when preparing failed.
\<close>

theorem runCommand_without_arguments:
  assumes "Arguments command = []"
  shows "runCommand env command st =
           (Some (ErrorString ''Insufficent number of command arguments''), st) \<and>
         status_code (ErrorString ''Insufficent number of command arguments'') = None \<and>
         (\<forall>fuel request st0 action st1 st2 response cacheable st'.
            call (GetAction env (InstanceName request) (ActionDigest request)) st0 = (Inr action, st1) \<longrightarrow>
            call (GetCommand env (InstanceName request) (CommandDigest action)) st1 = (Inr command, st2) \<longrightarrow>
            Execute fuel env request st0 = Some ((response, cacheable), st') \<longrightarrow>
            procs st' = procs st0 \<and> \<not> cacheable \<and>
            ((\<exists>err. prepareFilesystem fuel env request action command st2 = Some (Some err, st') \<and>
                response = convertErrorToExecuteResponse env err) \<or>
             (prepareFilesystem fuel env request action command st2 = Some (None, st') \<and>
                response = convertErrorToExecuteResponse env
                  (ErrorString ''Insufficent number of command arguments''))))"
proof (intro conjI allI impI)
  show r: "\<And>st. runCommand env command st =
           (Some (ErrorString ''Insufficent number of command arguments''), st)"
    using assms by (simp add: runCommand_def)
  show "status_code (ErrorString ''Insufficent number of command arguments'') = None" by simp
  fix fuel request st0 action st1 st2 response cacheable st'
  assume c1: "call (GetAction env (InstanceName request) (ActionDigest request)) st0 = (Inr action, st1)"
    and c2: "call (GetCommand env (InstanceName request) (CommandDigest action)) st1 = (Inr command, st2)"
    and a: "Execute fuel env request st0 = Some ((response, cacheable), st')"
  have p12: "procs st1 = procs st0" "procs st2 = procs st1"
    using procs_callD [OF c1] procs_callD [OF c2] by simp_all
  have main: "procs st' = procs st0 \<and> \<not> cacheable \<and>
            ((\<exists>err. prepareFilesystem fuel env request action command st2 = Some (Some err, st') \<and>
                response = convertErrorToExecuteResponse env err) \<or>
             (prepareFilesystem fuel env request action command st2 = Some (None, st') \<and>
                response = convertErrorToExecuteResponse env
                  (ErrorString ''Insufficent number of command arguments'')))"
  proof (cases "prepareFilesystem fuel env request action command st2")
    case None
    with a c1 c2 show ?thesis by (simp add: Execute_def)
  next
    case (Some res)
    obtain o3 st3 where res: "res = (o3, st3)" by (cases res)
    have p3: "procs st3 = procs st2" using Some res prepareFilesystem_procs by blast
    show ?thesis
    proof (cases o3)
      case err: (Some err)
      with a c1 c2 Some res have "response = convertErrorToExecuteResponse env err \<and> \<not> cacheable \<and> st' = st3"
        by (auto simp: Execute_def)
      with Some res err p12 p3 show ?thesis by auto
    next
      case None
      with a c1 c2 Some res r [of st3]
      have "response = convertErrorToExecuteResponse env
                  (ErrorString ''Insufficent number of command arguments'') \<and> \<not> cacheable \<and> st' = st3"
        by (auto simp: Execute_def)
      with Some res None p12 p3 show ?thesis by auto
    qed
  qed
  from main show "procs st' = procs st0" by blast
  from main show "\<not> cacheable" by blast
  from main show "(\<exists>err. prepareFilesystem fuel env request action command st2 = Some (Some err, st') \<and>
                response = convertErrorToExecuteResponse env err) \<or>
             (prepareFilesystem fuel env request action command st2 = Some (None, st') \<and>
                response = convertErrorToExecuteResponse env
                  (ErrorString ''Insufficent number of command arguments''))" by blast
qed

theorem runCommand_without_arguments_witness:
  "Arguments (demo_command\<lparr>Arguments := []\<rparr>) = [] \<and>
   Execute (Suc (Suc 0)) (demo_env_with demo_action (demo_command\<lparr>Arguments := []\<rparr>) None)
      demo_request demo_state =
     Some ((convertErrorToExecuteResponse
              (demo_env_with demo_action (demo_command\<lparr>Arguments := []\<rparr>) None)
              (ErrorString ''Insufficent number of command arguments''), False), demo_state) \<and>
   procs demo_state = [] \<and>
   runCommand (demo_env_with demo_action (demo_command\<lparr>Arguments := []\<rparr>) None)
      (demo_command\<lparr>Arguments := []\<rparr>) demo_state =
     (Some (ErrorString ''Insufficent number of command arguments''), demo_state)"
proof -
  have h: "Arguments (demo_command\<lparr>Arguments := []\<rparr>) = []" by simp
  note T = runCommand_without_arguments [OF h,
      of "demo_env_with demo_action (demo_command\<lparr>Arguments := []\<rparr>) None" demo_state]
  from T have r: "runCommand (demo_env_with demo_action (demo_command\<lparr>Arguments := []\<rparr>) None)
      (demo_command\<lparr>Arguments := []\<rparr>) demo_state =
     (Some (ErrorString ''Insufficent number of command arguments''), demo_state)" by blast
  have p: "procs demo_state = []" by (simp add: demo_state_def)
  have g1: "call (GetAction (demo_env_with demo_action (demo_command\<lparr>Arguments := []\<rparr>) None)
      (InstanceName demo_request) (ActionDigest demo_request)) demo_state =
      (Inr demo_action, demo_state)" by (rule demo_calls)
  have g2: "call (GetCommand (demo_env_with demo_action (demo_command\<lparr>Arguments := []\<rparr>) None)
      (InstanceName demo_request) (CommandDigest demo_action)) demo_state =
      (Inr (demo_command\<lparr>Arguments := []\<rparr>), demo_state)" by (rule demo_calls)
  note U = T [THEN conjunct2, THEN conjunct2, rule_format, OF g1 g2 demo_Execute_without_arguments]
  from h demo_Execute_without_arguments p r U show ?thesis by blast
qed



end
